theory Spec2Isabelle
  imports Main
begin

unbundle bit_operations_syntax

section \<open>Strings\<close>

text \<open>
  A Python \<^verbatim>\<open>str\<close> is modelled as a \<^typ>\<open>string\<close>: a list of characters whose
  codes are the code points below 256. The program's regular expression, its keyword
  tables and the grammar of numbers are all ASCII.
\<close>

definition code :: "char \<Rightarrow> nat" where
  "code c = of_char c"

text \<open>\<^verbatim>\<open>str.isspace\<close> on the code points below 256: tab to carriage return, the four
  separators 28..31, the space, NEL (133) and the no-break space (160).\<close>

definition isspace :: "char \<Rightarrow> bool" where
  "isspace c = (code c \<in> {9, 10, 11, 12, 13, 28, 29, 30, 31, 32, 133, 160})"

text \<open>\<^verbatim>\<open>s.strip()\<close>: whitespace removed at both ends.\<close>

definition strip :: "string \<Rightarrow> string" where
  "strip s = rev (dropWhile isspace (rev (dropWhile isspace s)))"

text \<open>\<^verbatim>\<open>s.replace(" ", "_")\<close>.\<close>

definition replace_space :: "string \<Rightarrow> string" where
  "replace_space s = map (\<lambda>c. if c = CHR '' '' then CHR ''_'' else c) s"

definition is_upper :: "char \<Rightarrow> bool" where
  "is_upper c = (65 \<le> code c \<and> code c \<le> 90)"

definition is_lower :: "char \<Rightarrow> bool" where
  "is_lower c = (97 \<le> code c \<and> code c \<le> 122)"

definition is_digit :: "char \<Rightarrow> bool" where
  "is_digit c = (48 \<le> code c \<and> code c \<le> 57)"

text \<open>The character classes of the program's patterns: \<^verbatim>\<open>[A-Za-z_]\<close> and
  \<^verbatim>\<open>[A-Za-z0-9_]\<close>.\<close>

definition ident_head :: "char \<Rightarrow> bool" where
  "ident_head c = (is_upper c \<or> is_lower c \<or> c = CHR ''_'')"

definition ident_body :: "char \<Rightarrow> bool" where
  "ident_body c = (is_upper c \<or> is_lower c \<or> is_digit c \<or> c = CHR ''_'')"

text \<open>
  \<^verbatim>\<open>IDENT_RE.match(s)\<close> for \<^verbatim>\<open>IDENT_RE = re.compile(r"^[A-Za-z_][A-Za-z0-9_]*$")\<close>.
  In Python's \<^verbatim>\<open>re\<close>, \<^verbatim>\<open>$\<close> matches at the end of the string and also just before a
  newline that ends the string, so the match succeeds when what follows the longest run
  of body characters is nothing or one final newline.
\<close>

definition IDENT_RE_match :: "string \<Rightarrow> bool" where
  "IDENT_RE_match s =
     (case s of
        [] \<Rightarrow> False
      | c # cs \<Rightarrow> ident_head c \<and>
          (let rest = dropWhile ident_body cs in rest = [] \<or> rest = [CHR 0x0A]))"

text \<open>The identifier pattern of the specification, \<^verbatim>\<open>[A-Za-z_][A-Za-z0-9_]*\<close>, matched
  against the whole string.\<close>

definition ident_pattern :: "string \<Rightarrow> bool" where
  "ident_pattern s =
     (case s of [] \<Rightarrow> False | c # cs \<Rightarrow> ident_head c \<and> list_all ident_body cs)"

text \<open>\<^verbatim>\<open>re.sub(r"[^A-Za-z0-9_]", "_", h)\<close>.\<close>

definition re_sub_invalid :: "string \<Rightarrow> string" where
  "re_sub_invalid h = map (\<lambda>c. if ident_body c then c else CHR ''_'') h"

text \<open>Decimal rendering of integers, as \<^verbatim>\<open>str(n)\<close> and the f-string fields do.\<close>

definition digit_char :: "nat \<Rightarrow> char" where
  "digit_char d = char_of (48 + d)"

function str_nat :: "nat \<Rightarrow> string" where
  "str_nat n = (if n < 10 then [digit_char n] else str_nat (n div 10) @ [digit_char (n mod 10)])"
  by pat_completeness auto
termination
  by (relation "measure id") auto

declare str_nat.simps [simp del]

definition str_int :: "int \<Rightarrow> string" where
  "str_int i = (if i < 0 then CHR ''-'' # str_nat (nat (- i)) else str_nat (nat i))"

section \<open>Errors\<close>

text \<open>
  The exceptions the program raises, named as the specification names them. In the
  source the first six are \<^verbatim>\<open>ValueError\<close>s with different messages (the row-length
  error of the sampling loop and that of the streaming loop are told apart),
  \<open>TableAlreadyExists\<close> is \<^verbatim>\<open>FileExistsError\<close>, \<open>StorageError\<close> stands for the
  \<^verbatim>\<open>sqlite3\<close> exception of a statement the engine rejects, and \<open>NoConnection\<close> for
  the exception of using \<^verbatim>\<open>self.conn\<close> while it is \<^verbatim>\<open>None\<close>. \<open>Uninterpreted\<close> is not
  an exception of the program: it marks statement text that the model of the engine
  does not interpret.
\<close>

datatype error =
    InvalidIdentifier
  | FileTooLarge
  | InvalidFileType
  | EmptyInput
  | RowLengthMismatchSample
  | RowLengthMismatchImport
  | TableAlreadyExists
  | StorageError
  | NoConnection
  | Uninterpreted

section \<open>Identifier sanitizer\<close>

text \<open>\<^verbatim>\<open>sanitize_identifier\<close>. The \<^verbatim>\<open>isinstance(name, str)\<close> test is the type of the
  argument.\<close>

definition sanitize_identifier :: "string \<Rightarrow> error + string" where
  "sanitize_identifier name =
     (let name' = strip name
      in if \<not> IDENT_RE_match name' then Inl InvalidIdentifier else Inr name')"

section \<open>Header normalization\<close>

text \<open>
  Lines 161 to 168 of \<^verbatim>\<open>import_csv\<close>, for the header cell \<open>raw\<close> at position \<open>i\<close>.
  The built-in \<^verbatim>\<open>hash\<close> of the running interpreter is the parameter \<open>hash\<close>: for a
  \<^verbatim>\<open>str\<close> its value is computed from a secret the interpreter draws when it starts
  (unless \<^verbatim>\<open>PYTHONHASHSEED\<close> fixes it), so it is a function of the string within one
  process only.
\<close>

definition normalize_header :: "(string \<Rightarrow> int) \<Rightarrow> nat \<Rightarrow> string \<Rightarrow> string" where
  "normalize_header hash i raw =
     (let h0 = replace_space (strip raw);
          h = (if h0 = [] then ''col'' @ str_nat i else h0)
      in if IDENT_RE_match h then h
         else (let safe = re_sub_invalid h
               in if IDENT_RE_match safe then safe
                  else ''col_'' @ str_int (hash h AND 0xFFFF)))"

definition normalize_headers :: "(string \<Rightarrow> int) \<Rightarrow> string list \<Rightarrow> string list" where
  "normalize_headers hash hs = map (\<lambda>(i, h). normalize_header hash i h) (enumerate 0 hs)"

section \<open>SQL safety classifier\<close>

text \<open>
  \<^verbatim>\<open>s.upper()\<close> on the ASCII letters. The other code points are left as they are:
  the program only compares the upper-cased text with ASCII keywords, and below 256
  Python's \<^verbatim>\<open>upper\<close> turns no other code point into an ASCII letter, but for the
  sharp s, which becomes \<^verbatim>\<open>SS\<close>; no keyword contains \<^verbatim>\<open>SS\<close> or ends in \<^verbatim>\<open>S\<close>, so
  the comparisons come out the same. \<^verbatim>\<open>s.lower()\<close> likewise.
\<close>

definition upper_char :: "char \<Rightarrow> char" where
  "upper_char c = (if is_lower c then char_of (code c - 32) else c)"

definition upper :: "string \<Rightarrow> string" where
  "upper s = map upper_char s"

definition lower_char :: "char \<Rightarrow> char" where
  "lower_char c = (if is_upper c then char_of (code c + 32) else c)"

definition lower :: "string \<Rightarrow> string" where
  "lower s = map lower_char s"

text \<open>\<^verbatim>\<open>s.startswith(p)\<close> and \<^verbatim>\<open>s.endswith(p)\<close>.\<close>

definition startswith :: "string \<Rightarrow> string \<Rightarrow> bool" where
  "startswith s p = (take (length p) s = p)"

definition endswith :: "string \<Rightarrow> string \<Rightarrow> bool" where
  "endswith s p = (length p \<le> length s \<and> drop (length s - length p) s = p)"

definition SAFE_SQL_PREFIXES :: "string list" where
  "SAFE_SQL_PREFIXES = [''SELECT'', ''PRAGMA'', ''EXPLAIN'']"

definition DANGEROUS_SQL_PREFIXES :: "string list" where
  "DANGEROUS_SQL_PREFIXES =
     [''UPDATE'', ''DELETE'', ''INSERT'', ''DROP'', ''ALTER'', ''REPLACE'', ''CREATE TABLE'']"

definition is_sql_dangerous :: "string \<Rightarrow> bool" where
  "is_sql_dangerous sql =
     (let s = upper (strip sql) in list_ex (\<lambda>prefix. startswith s prefix) DANGEROUS_SQL_PREFIXES)"

definition is_sql_safe :: "string \<Rightarrow> bool" where
  "is_sql_safe sql =
     (let s = upper (strip sql) in list_ex (\<lambda>prefix. startswith s prefix) SAFE_SQL_PREFIXES)"

datatype classification = Safe | Dangerous | Disallowed

text \<open>
  The three-way decision of \<^verbatim>\<open>cli_query\<close>: a statement that is neither safe nor
  dangerous is refused ("Command not allowed"), a dangerous one is run after the user
  confirms, any other is run at once.
\<close>

definition classify :: "string \<Rightarrow> classification" where
  "classify query =
     (if \<not> (is_sql_safe query \<or> is_sql_dangerous query) then Disallowed
      else if is_sql_dangerous query then Dangerous
      else Safe)"

text \<open>
  The classifier as the specification words it: the statement is trimmed and compared
  without regard to case; one that begins with a member of the safe set is \<open>Safe\<close>, one
  that begins with a member of the dangerous set is \<open>Dangerous\<close>, anything else is
  \<open>Disallowed\<close>.
\<close>

definition begins_with :: "string \<Rightarrow> string \<Rightarrow> bool" where
  "begins_with keyword stmt = (\<exists>rest. upper (strip stmt) = keyword @ rest)"

definition classify_spec :: "string \<Rightarrow> classification" where
  "classify_spec stmt =
     (if begins_with ''SELECT'' stmt \<or> begins_with ''PRAGMA'' stmt \<or> begins_with ''EXPLAIN'' stmt
      then Safe
      else if begins_with ''UPDATE'' stmt \<or> begins_with ''DELETE'' stmt
           \<or> begins_with ''INSERT'' stmt \<or> begins_with ''DROP'' stmt
           \<or> begins_with ''ALTER'' stmt \<or> begins_with ''REPLACE'' stmt
           \<or> begins_with ''CREATE TABLE'' stmt
      then Dangerous
      else Disallowed)"

section \<open>Type inference\<close>

datatype sqltype = INTEGER | REAL | TEXT

text \<open>
  Which strings \<^verbatim>\<open>int(v)\<close> and \<^verbatim>\<open>float(v)\<close> accept, after the Python language
  reference and the interpreter: surrounding whitespace is dropped, a sign may lead, and
  groups of digits may be joined by single underscores.
  \<^verbatim>\<open>
  digitpart   ::= digit (["_"] digit)*
  number      ::= [digitpart] "." digitpart | digitpart ["."]
  exponent    ::= ("e" | "E") [sign] digitpart
  floatnumber ::= number [exponent]
  absfloatvalue ::= floatnumber | "inf" | "infinity" | "nan"   (any case)
  \<close>
  The whitespace the two conversions drop is not that of \<^verbatim>\<open>str.strip\<close>: it is the
  whitespace of C (tab to carriage return, and the space) and, from code point 128 on,
  the Unicode whitespace (NEL and the no-break space below 256). The separators 28..31
  are not dropped: \<^verbatim>\<open>int\<close> and \<^verbatim>\<open>float\<close> refuse a string that holds one.
  \<^verbatim>\<open>int\<close> also refuses a literal of more than 4300 digits, the interpreter's default
  limit (Python 3.11, and the security releases of the versions before it), which the
  program does not change; \<^verbatim>\<open>float\<close> has no such limit.
\<close>

definition isspace_number :: "char \<Rightarrow> bool" where
  "isspace_number c = (code c \<in> {9, 10, 11, 12, 13, 32, 133, 160})"

definition strip_number :: "string \<Rightarrow> string" where
  "strip_number s = rev (dropWhile isspace_number (rev (dropWhile isspace_number s)))"

definition int_max_str_digits :: nat where
  "int_max_str_digits = 4300"

fun digitpart :: "string \<Rightarrow> bool" where
  "digitpart [] = False"
| "digitpart [c] = is_digit c"
| "digitpart (c # d # cs) =
     (is_digit c \<and> (if d = CHR ''_'' then digitpart cs else digitpart (d # cs)))"

definition drop_sign :: "string \<Rightarrow> string" where
  "drop_sign s =
     (case s of [] \<Rightarrow> [] | c # cs \<Rightarrow> if c = CHR ''+'' \<or> c = CHR ''-'' then cs else s)"

definition py_int_ok :: "string \<Rightarrow> bool" where
  "py_int_ok v =
     (let d = drop_sign (strip_number v)
      in digitpart d \<and> length (filter is_digit d) \<le> int_max_str_digits)"

definition float_number :: "string \<Rightarrow> bool" where
  "float_number m =
     (let a = takeWhile (\<lambda>c. c \<noteq> CHR ''.'') m;
          b = dropWhile (\<lambda>c. c \<noteq> CHR ''.'') m
      in case b of
           [] \<Rightarrow> digitpart a
         | _ # f \<Rightarrow> (a = [] \<and> digitpart f) \<or> (digitpart a \<and> (f = [] \<or> digitpart f)))"

definition is_e :: "char \<Rightarrow> bool" where
  "is_e c = (c = CHR ''e'' \<or> c = CHR ''E'')"

definition py_float_ok :: "string \<Rightarrow> bool" where
  "py_float_ok v =
     (let s = drop_sign (strip_number v); l = lower s
      in if l = ''inf'' \<or> l = ''infinity'' \<or> l = ''nan'' then True
         else (let m = takeWhile (\<lambda>c. \<not> is_e c) s;
                   r = dropWhile (\<lambda>c. \<not> is_e c) s
               in case r of
                    [] \<Rightarrow> float_number m
                  | _ # e \<Rightarrow> float_number m \<and> digitpart (drop_sign e)))"

text \<open>
  \<^verbatim>\<open>consistent_types\<close>: the loop over the samples with its running type \<open>t\<close>; each
  \<^verbatim>\<open>return "TEXT"\<close> leaves the loop at once.
\<close>

fun consistent_types_loop :: "sqltype \<Rightarrow> string list \<Rightarrow> sqltype" where
  "consistent_types_loop t [] = t"
| "consistent_types_loop t (v # vs) =
     (if v = [] then TEXT
      else if py_int_ok v then consistent_types_loop t vs
      else if py_float_ok v then consistent_types_loop (if t = INTEGER then REAL else t) vs
      else TEXT)"

definition consistent_types :: "string list \<Rightarrow> sqltype" where
  "consistent_types values = consistent_types_loop INTEGER values"

text \<open>
  The algorithm as the specification words it: a scan that carries a candidate, started
  at \<open>INTEGER\<close>; an empty sample or one that is no number forces \<open>TEXT\<close> and stops the
  scan; an integer leaves the candidate; a float that is no integer promotes it to
  \<open>REAL\<close>; what is left at the end is the result.
\<close>

datatype scan = Candidate sqltype | Forced sqltype

fun inferType_step :: "scan \<Rightarrow> string \<Rightarrow> scan" where
  "inferType_step (Forced t) v = Forced t"
| "inferType_step (Candidate c) v =
     (if v = [] then Forced TEXT
      else if py_int_ok v then Candidate c
      else if py_float_ok v then Candidate REAL
      else Forced TEXT)"

definition inferType_spec :: "string list \<Rightarrow> sqltype" where
  "inferType_spec samples =
     (case foldl inferType_step (Candidate INTEGER) samples of
        Candidate c \<Rightarrow> c
      | Forced t \<Rightarrow> t)"

section \<open>Statement text\<close>

text \<open>
  The statements whose text the program builds from a table name it is given: line 131
  of \<^verbatim>\<open>table_info\<close> and line 232 of \<^verbatim>\<open>export_table_to_csv\<close>. Both put the argument
  between apostrophes as it comes; neither calls \<^verbatim>\<open>sanitize_identifier\<close>.
\<close>

definition apostrophe :: char where
  "apostrophe = CHR 0x27"

definition table_info_statement :: "string \<Rightarrow> string" where
  "table_info_statement table_name =
     ''PRAGMA table_info('' @ [apostrophe] @ table_name @ [apostrophe] @ '')''"

definition export_statement :: "string \<Rightarrow> string" where
  "export_statement table_name = ''SELECT * FROM '' @ [apostrophe] @ table_name @ [apostrophe]"

section \<open>The storage engine\<close>

text \<open>
  The program keeps its data in an SQLite database through Python's \<^verbatim>\<open>sqlite3\<close> module.
  The engine is modelled for the statements the program issues (create a table if it
  does not exist, insert a row of text values into named columns, create an index if it
  does not exist, select all rows, look a table name up in the schema), after the
  engine's documentation:
  \<^item> table, column and index names are compared without regard to ASCII case, so tables
    are kept under their lower-cased names; the schema row keeps the name as written;
  \<^item> tables and indexes share one space of names: the engine refuses to create a table
    under the name of an index, and an index under the name of a table;
  \<^item> a table has at most 2000 columns (the engine's default limit);
  \<^item> a text value stored in a column of \<open>TEXT\<close> affinity stays text; in a column of
    \<open>INTEGER\<close> or \<open>REAL\<close> affinity, text that is a well-formed integer literal fitting
    64 bits becomes that integer (forced to floating point under \<open>REAL\<close>), text that is
    another well-formed number becomes a floating-point value (an integral one becomes
    an integer under \<open>INTEGER\<close>), and any other text stays text;
  \<^item> rows come back in the order they were inserted.
  Floating-point values are not computed here: the engine's conversions between text,
  integers and doubles and Python's rendering of a \<^verbatim>\<open>float\<close> are the parameter
  \<open>fp\<close>. The database holds what the program can create: tables, and the indexes of
  \<^verbatim>\<open>import_csv\<close>, each on one column of a table and named \<^verbatim>\<open>idx_<table>_<column>\<close>.
  Views, triggers, constraints, the schema tables themselves, the rowid as a column of
  its own and the limit on the number of bound values (32766 by default since SQLite
  3.32, above that on columns) are not part of the model.
\<close>

datatype 'r sqlvalue = VNull | VInt int | VReal 'r | VText string

record 'r float_ops =
  text_to_real :: "string \<Rightarrow> 'r option"
  int_to_real :: "int \<Rightarrow> 'r"
  real_to_int :: "'r \<Rightarrow> int option"
  render_real :: "'r \<Rightarrow> string"

datatype coldefault = DNull | DRowid | DTimestamp

record column =
  cname :: string
  ctype :: sqltype
  cdefault :: coldefault

record 'r table =
  tname :: string
  columns :: "column list"
  rows :: "'r sqlvalue list list"

text \<open>
  The state of a \<^verbatim>\<open>DatabaseManager\<close> and of what it writes to: whether \<^verbatim>\<open>self.conn\<close>
  is set, the tables and the indexes (table and column) of the database file, the image a rollback
  would restore (present while a transaction is open), the engine's
  \<^verbatim>\<open>CURRENT_TIMESTAMP\<close>, and the errors written to \<^verbatim>\<open>LOG_FILE\<close>.
\<close>

record 'r state =
  connected :: bool
  tables :: "string \<rightharpoonup> 'r table"
  indexes :: "(string \<times> string) list"
  saved :: "((string \<rightharpoonup> 'r table) \<times> (string \<times> string) list) option"
  clock :: string
  error_log :: "error list"

definition norm_name :: "string \<Rightarrow> string" where
  "norm_name n = lower n"

text \<open>The name \<^verbatim>\<open>import_csv\<close> gives the index on column \<open>ci\<close> of table \<open>tn\<close> (line 220),
  and the names of the indexes of the database as the engine compares them.\<close>

definition index_name :: "string \<Rightarrow> string \<Rightarrow> string" where
  "index_name tn ci = ''idx_'' @ tn @ ''_'' @ ci"

definition index_names :: "'r state \<Rightarrow> string list" where
  "index_names s = map (\<lambda>(tn, ci). norm_name (index_name tn ci)) (indexes s)"

definition SQLITE_MAX_COLUMN :: nat where
  "SQLITE_MAX_COLUMN = 2000"

definition digits_val :: "string \<Rightarrow> nat" where
  "digits_val ds = foldl (\<lambda>n c. 10 * n + (code c - 48)) 0 ds"

definition unsigned_literal :: "string \<Rightarrow> nat option" where
  "unsigned_literal ds = (if ds \<noteq> [] \<and> list_all is_digit ds then Some (digits_val ds) else None)"

definition sqlite_int_literal :: "string \<Rightarrow> int option" where
  "sqlite_int_literal s =
     (case s of
        [] \<Rightarrow> None
      | c # cs \<Rightarrow>
          if c = CHR ''-'' then map_option (\<lambda>n. - int n) (unsigned_literal cs)
          else if c = CHR ''+'' then map_option int (unsigned_literal cs)
          else map_option int (unsigned_literal s))"

definition numeric_text :: "'r float_ops \<Rightarrow> sqltype \<Rightarrow> string \<Rightarrow> 'r sqlvalue" where
  "numeric_text fp ty s =
     (case text_to_real fp s of
        None \<Rightarrow> VText s
      | Some r \<Rightarrow>
          if ty = REAL then VReal r
          else (case real_to_int fp r of Some n \<Rightarrow> VInt n | None \<Rightarrow> VReal r))"

definition apply_affinity :: "'r float_ops \<Rightarrow> sqltype \<Rightarrow> string \<Rightarrow> 'r sqlvalue" where
  "apply_affinity fp ty s =
     (if ty = TEXT then VText s
      else case sqlite_int_literal s of
             Some n \<Rightarrow>
               if - (2 ^ 63) \<le> n \<and> n < 2 ^ 63
               then (if ty = REAL then VReal (int_to_real fp n) else VInt n)
               else numeric_text fp ty s
           | None \<Rightarrow> numeric_text fp ty s)"

text \<open>What \<^verbatim>\<open>csv.writer\<close> writes for a value of a fetched row: nothing for \<^verbatim>\<open>None\<close>,
  the string itself, \<^verbatim>\<open>str\<close> of a number.\<close>

definition render :: "'r float_ops \<Rightarrow> 'r sqlvalue \<Rightarrow> string" where
  "render fp v =
     (case v of VNull \<Rightarrow> [] | VInt n \<Rightarrow> str_int n | VReal r \<Rightarrow> render_real fp r | VText s \<Rightarrow> s)"

text \<open>
  Transactions. \<^verbatim>\<open>connect\<close> opens the connection with \<^verbatim>\<open>isolation_level=None\<close>: the
  module then opens no transaction by itself and every statement takes effect as it is
  executed. The program never executes \<^verbatim>\<open>BEGIN\<close>. At the end of a \<^verbatim>\<open>with self.conn:\<close>
  block the module commits, or rolls back when the block raised; with no open
  transaction both do nothing.
\<close>

definition commit :: "'r state \<Rightarrow> 'r state" where
  "commit s = s\<lparr>saved := None\<rparr>"

definition rollback :: "'r state \<Rightarrow> 'r state" where
  "rollback s =
     (case saved s of
        None \<Rightarrow> s
      | Some (t, i) \<Rightarrow> s\<lparr>tables := t, indexes := i, saved := None\<rparr>)"

text \<open>\<^verbatim>\<open>SELECT name FROM sqlite_master WHERE type='table' AND name=?\<close>: the comparison
  with the stored name is exact.\<close>

definition table_exists :: "string \<Rightarrow> 'r state \<Rightarrow> bool" where
  "table_exists tn s =
     (case tables s (norm_name tn) of None \<Rightarrow> False | Some t \<Rightarrow> tname t = tn)"

text \<open>
  \<^verbatim>\<open>CREATE TABLE IF NOT EXISTS 'name' (columns)\<close>. An empty column list is a syntax
  error and a name that begins with \<^verbatim>\<open>sqlite_\<close> is reserved; when the table exists the
  statement does nothing; otherwise the name must not be that of an index, and the
  columns must be within the limit and distinct.
\<close>

definition sql_create_table_if_not_exists ::
  "string \<Rightarrow> column list \<Rightarrow> 'r state \<Rightarrow> error + 'r state" where
  "sql_create_table_if_not_exists name cols s =
     (if cols = [] then Inl StorageError
      else if startswith (norm_name name) ''sqlite_'' then Inl StorageError
      else if tables s (norm_name name) \<noteq> None then Inr s
      else if norm_name name \<in> set (index_names s) then Inl StorageError
      else if length cols > SQLITE_MAX_COLUMN then Inl StorageError
      else if \<not> distinct (map (\<lambda>c. norm_name (cname c)) cols) then Inl StorageError
      else Inr (s\<lparr>tables := (tables s)(norm_name name \<mapsto>
                  \<lparr>tname = name, columns = cols, rows = []\<rparr>)\<rparr>))"

text \<open>
  \<^verbatim>\<open>INSERT INTO 'name' (collist) VALUES (?, ...)\<close> with text values bound. Every named
  column must be one of the table's; a column of the table that is not named takes its
  default; a column named twice takes the first value.
\<close>

definition default_value :: "'r state \<Rightarrow> 'r table \<Rightarrow> coldefault \<Rightarrow> 'r sqlvalue" where
  "default_value s t d =
     (case d of
        DNull \<Rightarrow> VNull
      | DRowid \<Rightarrow> VInt (int (length (rows t)) + 1)
      | DTimestamp \<Rightarrow> VText (clock s))"

definition new_row ::
  "'r float_ops \<Rightarrow> 'r state \<Rightarrow> 'r table \<Rightarrow> string list \<Rightarrow> string list \<Rightarrow> 'r sqlvalue list" where
  "new_row fp s t collist vals =
     map (\<lambda>c. case map_of (zip (map norm_name collist) vals) (norm_name (cname c)) of
                 Some v \<Rightarrow> apply_affinity fp (ctype c) v
               | None \<Rightarrow> default_value s t (cdefault c))
         (columns t)"

definition sql_insert ::
  "'r float_ops \<Rightarrow> string \<Rightarrow> string list \<Rightarrow> string list \<Rightarrow> 'r state \<Rightarrow> error + 'r state" where
  "sql_insert fp name collist vals s =
     (case tables s (norm_name name) of
        None \<Rightarrow> Inl StorageError
      | Some t \<Rightarrow>
          if list_ex (\<lambda>c. norm_name c \<notin> set (map (\<lambda>c. norm_name (cname c)) (columns t))) collist
          then Inl StorageError
          else if length vals \<noteq> length collist then Inl StorageError
          else Inr (s\<lparr>tables := (tables s)(norm_name name \<mapsto>
                      t\<lparr>rows := rows t @ [new_row fp s t collist vals]\<rparr>)\<rparr>))"

text \<open>
  \<^verbatim>\<open>CREATE INDEX IF NOT EXISTS 'idx_{tn}_{ci}' ON 'tn'('ci')\<close>. The table must exist and
  the index's name must not be that of a table; when an index of the name exists the
  statement does nothing; otherwise the column must be one of the table's.
\<close>

definition sql_create_index_if_not_exists ::
  "string \<Rightarrow> string \<Rightarrow> 'r state \<Rightarrow> error + 'r state" where
  "sql_create_index_if_not_exists tn ci s =
     (case tables s (norm_name tn) of
        None \<Rightarrow> Inl StorageError
      | Some t \<Rightarrow>
          if tables s (norm_name (index_name tn ci)) \<noteq> None then Inl StorageError
          else if norm_name (index_name tn ci) \<in> set (index_names s) then Inr s
          else if norm_name ci \<notin> set (map (\<lambda>c. norm_name (cname c)) (columns t))
          then Inl StorageError
          else Inr (s\<lparr>indexes := indexes s @ [(tn, ci)]\<rparr>))"

text \<open>
  \<^verbatim>\<open>SELECT * FROM 'name'\<close>: the column names and the rows. The name comes between
  apostrophes as the caller gave it; with an apostrophe in it the text is some other
  statement, which the model does not interpret.
\<close>

definition sql_select_all ::
  "string \<Rightarrow> 'r state \<Rightarrow> error + (string list \<times> 'r sqlvalue list list)" where
  "sql_select_all name s =
     (if apostrophe \<in> set name then Inl Uninterpreted
      else case tables s (norm_name name) of
             None \<Rightarrow> Inl StorageError
           | Some t \<Rightarrow> Inr (map cname (columns t), rows t))"

section \<open>The database manager\<close>

text \<open>\<^verbatim>\<open>log_error\<close> appends the exception to the log file (the time stamp and the
  traceback it writes with it are left out).\<close>

definition log_error :: "error \<Rightarrow> 'r state \<Rightarrow> 'r state" where
  "log_error e s = s\<lparr>error_log := error_log s @ [e]\<rparr>"

definition audit_columns :: "column list" where
  "audit_columns =
     [\<lparr>cname = ''id'', ctype = INTEGER, cdefault = DRowid\<rparr>,
      \<lparr>cname = ''event_type'', ctype = TEXT, cdefault = DNull\<rparr>,
      \<lparr>cname = ''details'', ctype = TEXT, cdefault = DNull\<rparr>,
      \<lparr>cname = ''created_at'', ctype = INTEGER, cdefault = DTimestamp\<rparr>]"

text \<open>\<^verbatim>\<open>_create_audit_table\<close>, called by \<^verbatim>\<open>connect\<close> once \<^verbatim>\<open>self.conn\<close> is set (its own
  call of \<^verbatim>\<open>connect\<close> returns at once).\<close>

definition create_audit_table :: "'r state \<Rightarrow> (error + unit) \<times> 'r state" where
  "create_audit_table s =
     (case sql_create_table_if_not_exists ''audit_log'' audit_columns s of
        Inl e \<Rightarrow> (Inl e, rollback s)
      | Inr s' \<Rightarrow> (Inr (), commit s'))"

text \<open>\<^verbatim>\<open>connect\<close>: a new connection has no open transaction.\<close>

definition connect :: "'r state \<Rightarrow> (error + unit) \<times> 'r state" where
  "connect s =
     (if connected s then (Inr (), s)
      else create_audit_table (s\<lparr>connected := True, saved := None\<rparr>))"

text \<open>\<^verbatim>\<open>_log_event\<close>: the insert into the audit table inside \<^verbatim>\<open>try\<close>; any exception is
  handed to \<^verbatim>\<open>log_error\<close> and goes no further.\<close>

definition log_event :: "'r float_ops \<Rightarrow> string \<Rightarrow> string \<Rightarrow> 'r state \<Rightarrow> 'r state" where
  "log_event fp event_type details s =
     (if \<not> connected s then log_error NoConnection s
      else case sql_insert fp ''audit_log'' [''event_type'', ''details''] [event_type, details] s of
             Inl e \<Rightarrow> log_error e (rollback s)
           | Inr s' \<Rightarrow> commit s')"

section \<open>CSV import\<close>

text \<open>
  The file \<^verbatim>\<open>import_csv\<close> reads, as the program sees it: its path, what
  \<^verbatim>\<open>os.path.getsize\<close> and \<^verbatim>\<open>mimetypes.guess_type\<close> return for it, and the rows
  \<^verbatim>\<open>csv.reader\<close> yields. The file is taken to exist and to decode.
\<close>

record csv_file =
  path :: string
  file_size :: nat
  mime_guess :: "string option"
  content :: "string list list"

definition MAX_CSV_SIZE :: nat where
  "MAX_CSV_SIZE = 10 * 1024 * 1024"

definition sample_column :: "nat \<Rightarrow> string list list \<Rightarrow> string list" where
  "sample_column col_idx sample_rows =
     map (\<lambda>row. if col_idx < length row then row ! col_idx else []) sample_rows"

definition infer_columns :: "string list \<Rightarrow> string list list \<Rightarrow> column list" where
  "infer_columns headers sample_rows =
     map (\<lambda>(col_idx, col_name).
            \<lparr>cname = col_name,
             ctype = consistent_types (sample_column col_idx sample_rows),
             cdefault = DNull\<rparr>)
         (enumerate 0 headers)"

text \<open>The two insertion loops: each row is trimmed cell by cell and inserted; the
  second loop checks the row's width first (\<open>check\<close>).\<close>

fun insert_rows ::
  "'r float_ops \<Rightarrow> string \<Rightarrow> string list \<Rightarrow> bool \<Rightarrow> string list list \<Rightarrow> 'r state
     \<Rightarrow> (error + unit) \<times> 'r state" where
  "insert_rows fp tn headers check [] s = (Inr (), s)"
| "insert_rows fp tn headers check (row # rest) s =
     (if check \<and> length row \<noteq> length headers then (Inl RowLengthMismatchImport, s)
      else case sql_insert fp tn headers (map strip row) s of
             Inl e \<Rightarrow> (Inl e, s)
           | Inr s' \<Rightarrow> insert_rows fp tn headers check rest s')"

definition create_index ::
  "string \<Rightarrow> string option \<Rightarrow> 'r state \<Rightarrow> (error + unit) \<times> 'r state" where
  "create_index tn create_index_on s =
     (case create_index_on of
        None \<Rightarrow> (Inr (), s)
      | Some c \<Rightarrow>
          if c = [] then (Inr (), s)
          else case sanitize_identifier c of
                 Inl e \<Rightarrow> (Inl e, s)
               | Inr ci \<Rightarrow>
                   (case sql_create_index_if_not_exists tn ci s of
                      Inl e \<Rightarrow> (Inl e, s)
                    | Inr s' \<Rightarrow> (Inr (), s')))"

text \<open>The body of the \<^verbatim>\<open>with self.conn:\<close> block, lines 198 to 221.\<close>

definition import_block ::
  "'r float_ops \<Rightarrow> string \<Rightarrow> string list \<Rightarrow> column list \<Rightarrow> string list list \<Rightarrow> string list list
     \<Rightarrow> string option \<Rightarrow> 'r state \<Rightarrow> (error + unit) \<times> 'r state" where
  "import_block fp tn headers cols sample_rows remaining create_index_on s =
     (case sql_create_table_if_not_exists tn cols s of
        Inl e \<Rightarrow> (Inl e, s)
      | Inr s1 \<Rightarrow>
          (case insert_rows fp tn headers False sample_rows s1 of
             (Inl e, s2) \<Rightarrow> (Inl e, s2)
           | (Inr u, s2) \<Rightarrow>
               (case insert_rows fp tn headers True remaining s2 of
                  (Inl e, s3) \<Rightarrow> (Inl e, s3)
                | (Inr u, s3) \<Rightarrow> create_index tn create_index_on s3)))"

text \<open>The block with its exit: commit when the body returned, rollback when it raised.\<close>

definition import_transaction ::
  "'r float_ops \<Rightarrow> string \<Rightarrow> string list \<Rightarrow> column list \<Rightarrow> string list list \<Rightarrow> string list list
     \<Rightarrow> string option \<Rightarrow> 'r state \<Rightarrow> (error + unit) \<times> 'r state" where
  "import_transaction fp tn headers cols sample_rows remaining create_index_on s =
     (case import_block fp tn headers cols sample_rows remaining create_index_on s of
        (Inl e, s') \<Rightarrow> (Inl e, rollback s')
      | (Inr u, s') \<Rightarrow> (Inr u, commit s'))"

text \<open>\<^verbatim>\<open>import_csv\<close> up to the end of the \<^verbatim>\<open>with\<close> block.\<close>

definition import_data ::
  "'r float_ops \<Rightarrow> (string \<Rightarrow> int) \<Rightarrow> csv_file \<Rightarrow> string \<Rightarrow> bool \<Rightarrow> string option \<Rightarrow> 'r state
     \<Rightarrow> (error + string) \<times> 'r state" where
  "import_data fp hash f table_name append_mode create_index_on s =
     (case sanitize_identifier table_name of
        Inl e \<Rightarrow> (Inl e, s)
      | Inr tn \<Rightarrow>
          if file_size f > MAX_CSV_SIZE then (Inl FileTooLarge, s)
          else if mime_guess f \<noteq> Some ''text/csv'' \<and> \<not> endswith (lower (path f)) ''.csv''
          then (Inl InvalidFileType, s)
          else case content f of
                 [] \<Rightarrow> (Inl EmptyInput, s)
               | hdr # data \<Rightarrow>
                   (let headers = normalize_headers hash hdr;
                        sample_rows = take 20 data;
                        remaining = drop 20 data
                    in if list_ex (\<lambda>row. length row \<noteq> length headers) sample_rows
                       then (Inl RowLengthMismatchSample, s)
                       else (let cols = infer_columns headers sample_rows
                             in case connect s of
                                  (Inl e, s1) \<Rightarrow> (Inl e, s1)
                                | (Inr u, s1) \<Rightarrow>
                                    if table_exists tn s1 \<and> \<not> append_mode
                                    then (Inl TableAlreadyExists, s1)
                                    else (case import_transaction fp tn headers cols sample_rows
                                                 remaining create_index_on s1 of
                                            (Inl e, s2) \<Rightarrow> (Inl e, s2)
                                          | (Inr u, s2) \<Rightarrow> (Inr tn, s2)))))"

definition import_details :: "string \<Rightarrow> csv_file \<Rightarrow> string" where
  "import_details tn f =
     ''Imported '' @ tn @ '' from '' @ path f @ '' ('' @ str_nat (file_size f) @ '' bytes)''"

text \<open>\<^verbatim>\<open>import_csv\<close>: the above, then the audit record.\<close>

definition import_csv ::
  "'r float_ops \<Rightarrow> (string \<Rightarrow> int) \<Rightarrow> csv_file \<Rightarrow> string \<Rightarrow> bool \<Rightarrow> string option \<Rightarrow> 'r state
     \<Rightarrow> (error + unit) \<times> 'r state" where
  "import_csv fp hash f table_name append_mode create_index_on s =
     (case import_data fp hash f table_name append_mode create_index_on s of
        (Inl e, s') \<Rightarrow> (Inl e, s')
      | (Inr tn, s') \<Rightarrow> (Inr (), log_event fp ''IMPORT_CSV'' (import_details tn f) s'))"

section \<open>Table export\<close>

text \<open>
  \<^verbatim>\<open>export_table_to_csv\<close>. The result is the rows written to the file, the header row
  first; the file is taken to be writable.
\<close>

definition export_details :: "string \<Rightarrow> string \<Rightarrow> string" where
  "export_details table_name filepath = ''Exported table '' @ table_name @ '' to '' @ filepath"

definition export_data ::
  "'r float_ops \<Rightarrow> string \<Rightarrow> 'r state \<Rightarrow> (error + string list list) \<times> 'r state" where
  "export_data fp table_name s =
     (case connect s of
        (Inl e, s1) \<Rightarrow> (Inl e, s1)
      | (Inr u, s1) \<Rightarrow>
          (case sql_select_all table_name s1 of
             Inl e \<Rightarrow> (Inl e, s1)
           | Inr (cols, rws) \<Rightarrow> (Inr (cols # map (map (render fp)) rws), s1)))"

definition export_table_to_csv ::
  "'r float_ops \<Rightarrow> string \<Rightarrow> string \<Rightarrow> 'r state \<Rightarrow> (error + string list list) \<times> 'r state" where
  "export_table_to_csv fp table_name filepath s =
     (case export_data fp table_name s of
        (Inl e, s') \<Rightarrow> (Inl e, s')
      | (Inr written, s') \<Rightarrow>
          (Inr written, log_event fp ''EXPORT_CSV'' (export_details table_name filepath) s'))"

section \<open>Notions the properties are stated with\<close>

text \<open>What the importer stores for a row of the file: each cell trimmed, then converted
  by the affinity of its column.\<close>

definition stored_row :: "'r float_ops \<Rightarrow> column list \<Rightarrow> string list \<Rightarrow> 'r sqlvalue list" where
  "stored_row fp cols row = map (\<lambda>(c, v). apply_affinity fp (ctype c) (strip v)) (zip cols row)"

text \<open>The database once the table \<open>tn\<close> is created with columns \<open>cols\<close> and all rows of
  \<open>data\<close> are stored.\<close>

definition loaded ::
  "'r float_ops \<Rightarrow> string \<Rightarrow> column list \<Rightarrow> string list list \<Rightarrow> 'r state \<Rightarrow> 'r state" where
  "loaded fp tn cols data s =
     s\<lparr>tables := (tables s)(norm_name tn \<mapsto>
          \<lparr>tname = tn, columns = cols, rows = map (stored_row fp cols) data\<rparr>)\<rparr>"





text \<open>
  A well-formed CSV file: within the size limit, of CSV type, with a header row of
  identifiers that are distinct as column names (without regard to case) and no more
  than a table can have, and every data row of the header's width.
\<close>

definition wellformed_csv :: "csv_file \<Rightarrow> bool" where
  "wellformed_csv f =
     (file_size f \<le> MAX_CSV_SIZE
      \<and> (mime_guess f = Some ''text/csv'' \<or> endswith (lower (path f)) ''.csv'')
      \<and> (case content f of
            [] \<Rightarrow> False
          | hdr # data \<Rightarrow>
              hdr \<noteq> [] \<and> length hdr \<le> SQLITE_MAX_COLUMN
              \<and> list_all ident_pattern hdr \<and> distinct (map norm_name hdr)
              \<and> list_all (\<lambda>row. length row = length hdr) data))"

section \<open>Example inputs\<close>

text \<open>A database file with no table, not yet connected to; one with a table \<^verbatim>\<open>t\<close> of
  one row (made by another tool: it has no audit table); and the latter connected to.\<close>

definition empty_db :: "'r state" where
  "empty_db = \<lparr>connected = False, tables = Map.empty, indexes = [], saved = None,
      clock = ''2025-01-01 00:00:00'', error_log = []\<rparr>"

definition one_table :: "'r table" where
  "one_table = \<lparr>tname = ''t'',
      columns = [\<lparr>cname = ''a'', ctype = INTEGER, cdefault = DNull\<rparr>], rows = [[VInt 1]]\<rparr>"


definition dropped_audit_db :: "'r state" where
  "dropped_audit_db = \<lparr>connected = True, tables = [''t'' \<mapsto> one_table], indexes = [],
      saved = None, clock = ''2025-01-01 00:00:00'', error_log = []\<rparr>"

text \<open>The import scenario of the specification; a file with a number written with
  leading zeros; a file with no row at all; and a file whose 21st data row lacks a field.\<close>

definition people_file :: csv_file where
  "people_file =
     \<lparr>path = ''people.csv'', file_size = 24, mime_guess = Some ''text/csv'',
      content = [[''name'', ''age''], [''Alice'', ''30''], [''Bob'', '''']]\<rparr>"



definition short_row_file :: csv_file where
  "short_row_file =
     \<lparr>path = ''data.csv'', file_size = 90, mime_guess = Some ''text/csv'',
      content = [''a'', ''b''] # replicate 20 [''1'', ''2''] @ [[''3'']]\<rparr>"

section \<open>Properties of the string functions\<close>

lemma strip_last: "strip s \<noteq> [] \<Longrightarrow> \<not> isspace (last (strip s))"
proof -
  assume ne: "strip s \<noteq> []"
  define xs where "xs = dropWhile isspace (rev (dropWhile isspace s))"
  have s: "strip s = rev xs" by (simp add: strip_def xs_def)
  with ne have "xs \<noteq> []" by simp
  then have "\<not> isspace (hd xs)" unfolding xs_def by (rule hd_dropWhile)
  moreover have "last (rev xs) = hd xs" using \<open>xs \<noteq> []\<close> by (simp add: last_rev)
  ultimately show ?thesis by (simp add: s)
qed

lemma ident_body_not_space: "ident_body c \<Longrightarrow> \<not> isspace c"
  by (auto simp: ident_body_def isspace_def is_upper_def is_lower_def is_digit_def code_def)

lemma ident_head_body: "ident_head c \<Longrightarrow> ident_body c"
  by (auto simp: ident_head_def ident_body_def)

lemma isspace_nl: "isspace (CHR 0x0A)"
  by (simp add: isspace_def code_def)

lemma ident_pattern_match: "ident_pattern s \<Longrightarrow> IDENT_RE_match s"
  by (cases s) (simp_all add: ident_pattern_def IDENT_RE_match_def list_all_iff)

lemma dropWhile_single_last: "dropWhile P xs = [x] \<Longrightarrow> last (y # xs) = x"
proof -
  assume d: "dropWhile P xs = [x]"
  have "xs = takeWhile P xs @ dropWhile P xs" by simp
  with d have "xs = takeWhile P xs @ [x]" by simp
  then have "last xs = x \<and> xs \<noteq> []" by (metis last_snoc snoc_eq_iff_butlast)
  then show ?thesis by simp
qed

lemma match_ident_pattern:
  assumes "IDENT_RE_match s" and "\<not> isspace (last s)"
  shows "ident_pattern s"
proof (cases s)
  case Nil
  with assms show ?thesis by (simp add: IDENT_RE_match_def)
next
  case (Cons c cs)
  with assms(1) have h: "ident_head c"
    and d: "dropWhile ident_body cs = [] \<or> dropWhile ident_body cs = [CHR 0x0A]"
    by (simp_all add: IDENT_RE_match_def Let_def)
  from d show ?thesis
  proof
    assume "dropWhile ident_body cs = []"
    with h Cons show ?thesis by (simp add: ident_pattern_def list_all_iff)
  next
    assume "dropWhile ident_body cs = [CHR 0x0A]"
    then have "last (c # cs) = CHR 0x0A" by (rule dropWhile_single_last)
    with assms(2) Cons isspace_nl show ?thesis by simp
  qed
qed

lemma digit_char_is_digit: "d < 10 \<Longrightarrow> is_digit (digit_char d)"
  by (simp add: is_digit_def digit_char_def code_def)

lemma str_nat_digits: "list_all is_digit (str_nat n)"
proof (induction n rule: str_nat.induct)
  case (1 n)
  show ?case
  proof (cases "n < 10")
    case True
    then show ?thesis by (subst str_nat.simps) (simp add: digit_char_is_digit)
  next
    case False
    with 1 show ?thesis by (subst str_nat.simps) (simp add: digit_char_is_digit)
  qed
qed

lemma is_digit_body: "is_digit c \<Longrightarrow> ident_body c"
  by (simp add: ident_body_def)

lemma str_nat_body: "list_all ident_body (str_nat n)"
  using str_nat_digits [of n] by (induction "str_nat n") (auto simp: list_all_iff is_digit_body)

lemma ident_pattern_col: "ident_pattern (''col'' @ str_nat n)"
  by (simp add: ident_pattern_def ident_head_def ident_body_def is_lower_def code_def str_nat_body)

lemma ident_pattern_col_hash: "ident_pattern (''col_'' @ str_int (x AND 0xFFFF))"
proof -
  have "0 \<le> x AND 0xFFFF" by simp
  then have "str_int (x AND 0xFFFF) = str_nat (nat (x AND 0xFFFF))" by (simp add: str_int_def)
  then show ?thesis
    by (simp add: ident_pattern_def ident_head_def ident_body_def is_lower_def code_def str_nat_body)
qed

lemma re_sub_invalid_body: "list_all ident_body (re_sub_invalid h)"
  by (induction h) (simp_all add: re_sub_invalid_def ident_body_def)

lemma match_all_body: "IDENT_RE_match s \<Longrightarrow> list_all ident_body s \<Longrightarrow> ident_pattern s"
  by (cases s) (simp_all add: IDENT_RE_match_def ident_pattern_def)

lemma replace_space_last:
  "s \<noteq> [] \<Longrightarrow> \<not> isspace (last s) \<Longrightarrow> \<not> isspace (last (replace_space s))"
  by (auto simp: replace_space_def last_map isspace_def code_def)

lemma strip_no_space: "s \<noteq> [] \<Longrightarrow> \<not> isspace (hd s) \<Longrightarrow> \<not> isspace (last s) \<Longrightarrow> strip s = s"
proof -
  assume a: "s \<noteq> []" "\<not> isspace (hd s)" "\<not> isspace (last s)"
  then have 1: "dropWhile isspace s = s" by (cases s) simp_all
  from a have "rev s \<noteq> []" "\<not> isspace (hd (rev s))" by (simp_all add: hd_rev)
  then have "dropWhile isspace (rev s) = rev s" by (cases "rev s") simp_all
  with 1 show ?thesis by (simp add: strip_def)
qed

lemma ident_pattern_strip: "ident_pattern s \<Longrightarrow> strip s = s"
proof -
  assume p: "ident_pattern s"
  then obtain c cs where s: "s = c # cs" and h: "ident_head c" and b: "list_all ident_body cs"
    by (cases s) (auto simp: ident_pattern_def)
  have "ident_body (last s)" using h b s by (cases cs rule: rev_cases) (auto simp: ident_head_body)
  then show ?thesis using s h by (intro strip_no_space) (auto simp: ident_body_not_space ident_head_body)
qed

text \<open>
  Claim C5. For every raw header cell, every position and every value the interpreter's
  hash may take, header normalization returns a string that matches the identifier
  pattern \<^verbatim>\<open>[A-Za-z_][A-Za-z0-9_]*\<close> as a whole. The function has no failing branch:
  trimming, replacing, matching and hashing raise nothing, so it returns for every input.
\<close>

theorem normalize_header_valid: "ident_pattern (normalize_header hash i raw)"
proof -
  define h0 where "h0 = replace_space (strip raw)"
  define h where "h = (if h0 = [] then ''col'' @ str_nat i else h0)"
  define safe where "safe = re_sub_invalid h"
  have nh: "normalize_header hash i raw =
      (if IDENT_RE_match h then h
       else if IDENT_RE_match safe then safe else ''col_'' @ str_int (hash h AND 0xFFFF))"
    by (simp add: normalize_header_def Let_def h0_def h_def safe_def)
  have hok: "ident_pattern h" if m: "IDENT_RE_match h"
  proof (cases "h0 = []")
    case True
    then show ?thesis using ident_pattern_col [of i] by (simp add: h_def)
  next
    case False
    then have "strip raw \<noteq> []" by (auto simp: h0_def replace_space_def)
    then have "\<not> isspace (last h0)"
      unfolding h0_def by (intro replace_space_last strip_last)
    with False m show ?thesis by (simp add: h_def match_ident_pattern)
  qed
  have sok: "ident_pattern safe" if "IDENT_RE_match safe"
    using that by (simp add: safe_def match_all_body re_sub_invalid_body)
  show ?thesis
    unfolding nh using hok sok ident_pattern_col_hash [of "hash h"] by auto
qed

lemma sanitize_identifier_cases:
  "sanitize_identifier x =
     (if ident_pattern (strip x) then Inr (strip x) else Inl InvalidIdentifier)"
proof (cases "strip x = []")
  case True
  then show ?thesis
    by (simp add: sanitize_identifier_def ident_pattern_def IDENT_RE_match_def)
next
  case False
  then have "\<not> isspace (last (strip x))" by (rule strip_last)
  then have "IDENT_RE_match (strip x) = ident_pattern (strip x)"
    using match_ident_pattern ident_pattern_match by blast
  then show ?thesis by (simp add: sanitize_identifier_def)
qed

text \<open>
  Claim C7. The sanitizer fails with \<open>InvalidIdentifier\<close> exactly when the trimmed input
  does not match the identifier pattern, and returns the trimmed input otherwise; a
  string that already matches the pattern is returned as it is.
\<close>

theorem sanitize_identifier_correct:
  "sanitize_identifier raw =
       (if ident_pattern (strip raw) then Inr (strip raw) else Inl InvalidIdentifier)
   \<and> (ident_pattern s \<longrightarrow> sanitize_identifier s = Inr s)"
proof -
  have "sanitize_identifier s = Inr s" if "ident_pattern s"
    using that sanitize_identifier_cases [of s] by (simp add: ident_pattern_strip)
  with sanitize_identifier_cases [of raw] show ?thesis by blast
qed

theorem sanitize_identifier_correct_witness:
  "ident_pattern ''people'' \<and> sanitize_identifier ''people'' = Inr ''people''"
proof -
  have p: "ident_pattern ''people''"
    by (simp add: ident_pattern_def ident_head_def ident_body_def is_lower_def code_def)
  from sanitize_identifier_correct [of "''people''" "''people''"] p show ?thesis by blast
qed

section \<open>The classifier and type inference\<close>

lemma startswith_iff: "startswith s p = (\<exists>r. s = p @ r)"
  unfolding startswith_def by (metis append_eq_conv_conj append_take_drop_id)

lemma is_sql_safe_iff:
  "is_sql_safe q =
     (begins_with ''SELECT'' q \<or> begins_with ''PRAGMA'' q \<or> begins_with ''EXPLAIN'' q)"
  by (simp add: is_sql_safe_def SAFE_SQL_PREFIXES_def begins_with_def startswith_iff Let_def)

lemma is_sql_dangerous_iff:
  "is_sql_dangerous q =
     (begins_with ''UPDATE'' q \<or> begins_with ''DELETE'' q \<or> begins_with ''INSERT'' q
      \<or> begins_with ''DROP'' q \<or> begins_with ''ALTER'' q \<or> begins_with ''REPLACE'' q
      \<or> begins_with ''CREATE TABLE'' q)"
  by (simp add: is_sql_dangerous_def DANGEROUS_SQL_PREFIXES_def begins_with_def startswith_iff Let_def)

lemma begins_with_hd: "begins_with (c # k) q \<Longrightarrow> hd (upper (strip q)) = c"
  by (auto simp: begins_with_def)

lemma safe_not_dangerous: "is_sql_safe q \<Longrightarrow> \<not> is_sql_dangerous q"
  unfolding is_sql_safe_iff is_sql_dangerous_iff
  by (auto dest!: begins_with_hd)

lemma classify_eq_spec: "classify q = classify_spec q"
  using safe_not_dangerous [of q]
  by (auto simp: classify_def classify_spec_def is_sql_safe_iff is_sql_dangerous_iff)

lemma isspace_upper_char: "isspace (upper_char c) = isspace c"
  by (auto simp: upper_char_def isspace_def is_lower_def code_def)

lemma upper_char_idem: "upper_char (upper_char c) = upper_char c"
  by (auto simp: upper_char_def is_lower_def code_def)

lemma upper_idem: "upper (upper s) = upper s"
  by (simp add: upper_def upper_char_idem)

lemma dropWhile_space_upper: "dropWhile isspace (upper s) = upper (dropWhile isspace s)"
  by (induction s) (simp_all add: upper_def isspace_upper_char)

lemma strip_upper: "strip (upper s) = upper (strip s)"
proof -
  have "rev (upper s) = upper (rev s)" for s by (simp add: upper_def rev_map)
  then show ?thesis by (simp add: strip_def dropWhile_space_upper)
qed

lemma strip_hd: "strip s \<noteq> [] \<Longrightarrow> \<not> isspace (hd (strip s))"
proof -
  assume ne: "strip s \<noteq> []"
  define t where "t = dropWhile isspace s"
  have split: "t = strip s @ rev (takeWhile isspace (rev t))"
    unfolding strip_def t_def
    by (metis rev_append rev_rev_ident takeWhile_dropWhile_id)
  with ne have "hd t = hd (strip s)" by (metis hd_append2)
  moreover from split ne have "t \<noteq> []" by auto
  then have "\<not> isspace (hd t)" unfolding t_def by (rule hd_dropWhile)
  ultimately show ?thesis by simp
qed

lemma strip_idem: "strip (strip s) = strip s"
proof (cases "strip s = []")
  case True
  moreover have "strip [] = []" by (simp add: strip_def)
  ultimately show ?thesis by simp
next
  case False
  then show ?thesis by (intro strip_no_space strip_hd strip_last)
qed

lemma upper_strip_fix: "upper (strip (upper (strip s))) = upper (strip s)"
  by (simp add: strip_upper strip_idem upper_idem)

lemma classify_folded: "classify (upper (strip q)) = classify q"
  by (simp add: classify_def is_sql_safe_def is_sql_dangerous_def upper_strip_fix)

lemma foldl_forced: "foldl inferType_step (Forced t) vs = Forced t"
  by (induction vs) simp_all

lemma loop_eq_scan:
  "t \<noteq> TEXT \<Longrightarrow>
   consistent_types_loop t vs =
     (case foldl inferType_step (Candidate t) vs of Candidate c \<Rightarrow> c | Forced u \<Rightarrow> u)"
proof (induction vs arbitrary: t)
  case Nil
  then show ?case by simp
next
  case (Cons v vs)
  from Cons.prems have t: "t = INTEGER \<or> t = REAL" by (cases t) simp_all
  then have r: "(if t = INTEGER then REAL else t) = REAL" by auto
  show ?case using Cons.IH [of t] Cons.IH [of REAL] Cons.prems
    by (simp add: foldl_forced r)
qed

lemma consistent_types_eq_spec: "consistent_types vs = inferType_spec vs"
  by (simp add: consistent_types_def inferType_spec_def loop_eq_scan)

text \<open>
  The conversions at the edges of what they accept: a separator of the range 28..31
  around a number makes the sample text although \<^verbatim>\<open>str.strip\<close> would drop it, the
  no-break space is dropped, and a run of digits is an integer up to 4300 digits and
  only a float beyond.
\<close>

lemma separator_not_number:
  "consistent_types [[CHR 0x1C, CHR ''1'']] = TEXT
   \<and> consistent_types [[CHR ''1'', CHR 0x1F]] = TEXT
   \<and> consistent_types [[CHR 0xA0, CHR ''1'']] = INTEGER
   \<and> consistent_types [[CHR 0x1C] @ ''1.5''] = TEXT"
  by (simp add: consistent_types_def py_int_ok_def py_float_ok_def strip_number_def
      isspace_number_def drop_sign_def float_number_def is_digit_def is_e_def lower_def
      lower_char_def is_upper_def code_def Let_def int_max_str_digits_def)

lemma one_is_digit: "\<not> isspace_number CHR ''1''" "is_digit CHR ''1''"
  "CHR ''1'' \<noteq> CHR ''+''" "CHR ''1'' \<noteq> CHR ''-''" "\<not> is_e CHR ''1''"
  "lower_char CHR ''1'' = CHR ''1''"
  by (simp_all add: isspace_number_def is_digit_def is_e_def lower_char_def is_upper_def code_def)

lemma strip_number_ones: "strip_number (replicate n CHR ''1'') = replicate n CHR ''1''"
  by (simp add: strip_number_def dropWhile_replicate one_is_digit)

lemma drop_sign_ones: "drop_sign (replicate n CHR ''1'') = replicate n CHR ''1''"
  by (cases n) (simp_all add: drop_sign_def)

lemma digitpart_ones: "digitpart (replicate (Suc n) CHR ''1'')"
  by (induction n) (simp_all add: one_is_digit)

lemma py_int_ok_ones: "py_int_ok (replicate (Suc n) CHR ''1'') = (n < 4300)"
proof -
  have "length (filter is_digit (replicate (Suc n) CHR ''1'')) = Suc n"
    by (simp add: one_is_digit)
  then show ?thesis
    unfolding py_int_ok_def strip_number_ones drop_sign_ones Let_def int_max_str_digits_def
    using digitpart_ones [of n] by (simp only: simp_thms) arith
qed

lemma py_float_ok_ones: "py_float_ok (replicate (Suc n) CHR ''1'')"
proof -
  let ?s = "replicate (Suc n) CHR ''1''"
  have l: "lower ?s = ?s" by (simp add: lower_def one_is_digit)
  have ne: "?s \<noteq> ''inf''" "?s \<noteq> ''infinity''" "?s \<noteq> ''nan''" by simp_all
  have tw: "takeWhile (\<lambda>c. \<not> is_e c) ?s = ?s" "dropWhile (\<lambda>c. \<not> is_e c) ?s = []"
    by (simp_all add: one_is_digit del: replicate_Suc)
  have fn: "float_number ?s"
    using digitpart_ones [of n]
    by (simp add: float_number_def Let_def del: replicate_Suc)
  show ?thesis
    unfolding py_float_ok_def strip_number_ones drop_sign_ones Let_def l
    using ne fn by (simp only: tw list.case if_False simp_thms)
qed

lemma consistent_types_digit_limit:
  "consistent_types [replicate (Suc n) CHR ''1''] = (if n < 4300 then INTEGER else REAL)"
proof -
  have ne: "replicate (Suc n) CHR ''1'' \<noteq> []" by simp
  show ?thesis
    unfolding consistent_types_def consistent_types_loop.simps
    using ne py_int_ok_ones [of n] py_float_ok_ones [of n] by (simp del: replicate_Suc)
qed

text \<open>
  Claim C3. Type inference follows the specification's algorithm on every list of
  samples: the source's loop and the scan of the specification (candidate \<open>INTEGER\<close>
  at the start, an empty or non-numeric sample forces \<open>TEXT\<close> at once, an integer keeps
  the candidate, a float that is no integer promotes it to \<open>REAL\<close> for good) compute the
  same type. The five examples of the specification follow.
\<close>

theorem consistent_types_algorithm:
  "consistent_types samples = inferType_spec samples
   \<and> consistent_types [] = INTEGER
   \<and> consistent_types [''1'', ''2'', ''3''] = INTEGER
   \<and> consistent_types [''1'', ''2.5''] = REAL
   \<and> consistent_types [''1'', ''''] = TEXT
   \<and> consistent_types [''1'', ''abc''] = TEXT"
proof -
  have e0: "consistent_types [] = INTEGER" by (simp add: consistent_types_def)
  have e1: "consistent_types [''1'', ''2'', ''3''] = INTEGER" by code_simp
  have e2: "consistent_types [''1'', ''2.5''] = REAL" by code_simp
  have e3: "consistent_types [''1'', ''''] = TEXT" by code_simp
  have e4: "consistent_types [''1'', ''abc''] = TEXT" by code_simp
  from consistent_types_eq_spec [of samples] e0 e1 e2 e3 e4
  show ?thesis by blast
qed

text \<open>
  Claim C2. The classifier returns \<open>Safe\<close> for a statement that, trimmed and upper-cased,
  begins with \<^verbatim>\<open>SELECT\<close>, \<^verbatim>\<open>PRAGMA\<close> or \<^verbatim>\<open>EXPLAIN\<close>; \<open>Dangerous\<close> for one that
  begins with \<^verbatim>\<open>UPDATE\<close>, \<^verbatim>\<open>DELETE\<close>, \<^verbatim>\<open>INSERT\<close>, \<^verbatim>\<open>DROP\<close>, \<^verbatim>\<open>ALTER\<close>,
  \<^verbatim>\<open>REPLACE\<close> or \<^verbatim>\<open>CREATE TABLE\<close>; and \<open>Disallowed\<close> for every other. The leading
  keyword is read as the specification defines it, "statements beginning with a member
  of the set": a prefix test, under which \<^verbatim>\<open>CREATE TABLE\<close> can be a member at all. No
  statement begins with a member of both sets, so the order of the two tests does not
  matter; the result is that of the trimmed, upper-cased statement. The five examples of
  the specification follow.
\<close>

theorem classify_by_leading_keyword:
  "classify stmt = classify_spec stmt
   \<and> classify (upper (strip stmt)) = classify stmt
   \<and> classify ''select * from t'' = Safe
   \<and> classify ''  SELECT 1'' = Safe
   \<and> classify ''DROP TABLE t'' = Dangerous
   \<and> classify ''insert into t values (1)'' = Dangerous
   \<and> classify ''ATTACH DATABASE x'' = Disallowed"
proof -
  have e1: "classify ''select * from t'' = Safe" by code_simp
  have e2: "classify ''  SELECT 1'' = Safe" by code_simp
  have e3: "classify ''DROP TABLE t'' = Dangerous" by code_simp
  have e4: "classify ''insert into t values (1)'' = Dangerous" by code_simp
  have e5: "classify ''ATTACH DATABASE x'' = Disallowed" by code_simp
  from classify_eq_spec [of stmt] classify_folded [of stmt] e1 e2 e3 e4 e5
  show ?thesis by blast
qed

section \<open>Generated names and statement text\<close>

text \<open>
  Claim C6. The generated fallback name is the interpreter's hash of the header: for the
  header \<^verbatim>\<open>1a\<close>, which neither matches the pattern nor is repaired by replacing
  characters, the column is named \<^verbatim>\<open>col_\<close> followed by the low 16 bits of \<open>hash\<close>.
  Two interpreters whose hashes of \<^verbatim>\<open>1a\<close> differ in those bits name the column
  differently, as the two constant hashes here do.
\<close>

theorem normalize_header_follows_hash:
  "normalize_header hash i ''1a'' = ''col_'' @ str_int (hash ''1a'' AND 0xFFFF)
   \<and> normalize_header (\<lambda>_. 1) 0 ''1a'' = ''col_1''
   \<and> normalize_header (\<lambda>_. 2) 0 ''1a'' = ''col_2''"
proof -
  have s: "strip ''1a'' = ''1a''" by code_simp
  have m: "\<not> IDENT_RE_match ''1a''" by code_simp
  have g: "normalize_header h j ''1a'' = ''col_'' @ str_int (h ''1a'' AND 0xFFFF)" for h j
    using m by (simp add: normalize_header_def s replace_space_def re_sub_invalid_def
        ident_body_def is_digit_def is_lower_def is_upper_def code_def)
  have "str_int 1 = ''1''" "str_int 2 = ''2''" by code_simp+
  with g [of hash i] g [of "\<lambda>_. 1" 0] g [of "\<lambda>_. 2" 0] show ?thesis by simp
qed

text \<open>
  Claim C4. The export and the schema query put a table name into statement text without
  sanitizing it: for the name \<^verbatim>\<open>my table\<close>, which the sanitizer rejects, both build their
  statement around the name as given.
\<close>

theorem export_statement_unsanitized:
  "sanitize_identifier ''my table'' = Inl InvalidIdentifier
   \<and> export_statement ''my table'' = ''SELECT * FROM '' @ [apostrophe] @ ''my table'' @ [apostrophe]
   \<and> table_info_statement ''my table''
       = ''PRAGMA table_info('' @ [apostrophe] @ ''my table'' @ [apostrophe] @ '')''"
proof -
  have "sanitize_identifier ''my table'' = Inl InvalidIdentifier" by code_simp
  then show ?thesis by (simp add: export_statement_def table_info_statement_def)
qed

section \<open>The database manager, import and export\<close>

lemma norm_audit: "norm_name ''audit_log'' = ''audit_log''"
  by code_simp

lemma audit_not_reserved: "\<not> startswith ''audit_log'' ''sqlite_''"
  by code_simp

lemma audit_columns_ok:
  "audit_columns \<noteq> []" "distinct (map (\<lambda>c. norm_name (cname c)) audit_columns)"
  by code_simp+

lemma audit_not_index: "''audit_log'' \<notin> set (index_names s)"
  by (auto simp: index_names_def index_name_def norm_name_def lower_def lower_char_def
      is_upper_def code_def)

lemma audit_columns_few: "\<not> SQLITE_MAX_COLUMN < length audit_columns"
  by (simp add: audit_columns_def SQLITE_MAX_COLUMN_def)

text \<open>Tables and indexes share their names: no table is created under the name of an
  index, and no index under the name of a table.\<close>

lemma create_table_index_name:
  "norm_name name \<in> set (index_names s) \<Longrightarrow> tables s (norm_name name) = None \<Longrightarrow>
   sql_create_table_if_not_exists name cols s = Inl StorageError"
  by (simp add: sql_create_table_if_not_exists_def)

lemma create_index_table_name:
  "tables s (norm_name (index_name tn ci)) \<noteq> None \<Longrightarrow>
   sql_create_index_if_not_exists tn ci s = Inl StorageError"
  by (auto simp: sql_create_index_if_not_exists_def split: option.splits)

lemma create_audit_table_cases:
  "create_audit_table s =
     (Inr (), if tables s ''audit_log'' \<noteq> None then commit s
              else commit (s\<lparr>tables := (tables s)(''audit_log'' \<mapsto>
                     \<lparr>tname = ''audit_log'', columns = audit_columns, rows = []\<rparr>)\<rparr>))"
  using audit_columns_ok audit_not_reserved audit_not_index [of s] audit_columns_few
  by (simp add: create_audit_table_def sql_create_table_if_not_exists_def norm_audit)

lemma connect_ok: "fst (connect s) = Inr ()"
  by (simp add: connect_def create_audit_table_cases)

lemma connect_connected: "connected (snd (connect s))"
  by (simp add: connect_def create_audit_table_cases commit_def)

lemma connect_saved: "saved s = None \<Longrightarrow> saved (snd (connect s)) = None"
  by (simp add: connect_def create_audit_table_cases commit_def)

lemma connect_tables_other: "k \<noteq> ''audit_log'' \<Longrightarrow> tables (snd (connect s)) k = tables s k"
  by (simp add: connect_def create_audit_table_cases commit_def)


lemma connect_indexes: "index_names (snd (connect s)) = index_names s"
  by (simp add: connect_def create_audit_table_cases commit_def index_names_def)

lemma connect_prod: "connect s = (Inr (), snd (connect s))"
  using connect_ok [of s] by (cases "connect s") simp


lemma ident_body_no_space: "ident_body c \<Longrightarrow> c \<noteq> CHR '' ''"
  by (auto simp: ident_body_def is_upper_def is_lower_def is_digit_def code_def)

lemma ident_pattern_body: "ident_pattern h \<Longrightarrow> list_all ident_body h"
  by (cases h) (auto simp: ident_pattern_def ident_head_def ident_body_def)

lemma ident_pattern_replace_space: "ident_pattern h \<Longrightarrow> replace_space h = h"
proof -
  assume "ident_pattern h"
  then have "list_all ident_body h" by (rule ident_pattern_body)
  then have "\<forall>c\<in>set h. c \<noteq> CHR '' ''" by (auto simp: list_all_iff ident_body_no_space)
  then show ?thesis unfolding replace_space_def by (induction h) auto
qed

lemma ident_pattern_nonempty: "ident_pattern h \<Longrightarrow> h \<noteq> []"
  by (auto simp: ident_pattern_def)

lemma normalize_header_ident: "ident_pattern h \<Longrightarrow> normalize_header hash i h = h"
  by (simp add: normalize_header_def ident_pattern_strip ident_pattern_replace_space
      ident_pattern_nonempty ident_pattern_match)

lemma normalize_headers_ident:
  "list_all ident_pattern hs \<Longrightarrow> normalize_headers hash hs = hs"
proof -
  assume a: "list_all ident_pattern hs"
  have "map (\<lambda>(i, h). normalize_header hash i h) (enumerate 0 hs) = map snd (enumerate 0 hs)"
  proof (rule map_cong [OF refl])
    fix p assume "p \<in> set (enumerate 0 hs)"
    then have "snd p \<in> snd ` set (enumerate 0 hs)" by (rule imageI)
    then have "snd p \<in> set hs" by (simp flip: set_map)
    with a have "ident_pattern (snd p)" by (simp add: list_all_iff)
    then show "(case p of (i, h) \<Rightarrow> normalize_header hash i h) = snd p"
      by (cases p) (simp add: normalize_header_ident)
  qed
  then show ?thesis by (simp add: normalize_headers_def)
qed


lemma infer_columns_names: "map cname (infer_columns hs sample) = hs"
proof -
  have "map cname (infer_columns hs sample) = map snd (enumerate 0 hs)"
    unfolding infer_columns_def by (simp add: case_prod_unfold comp_def)
  then show ?thesis by simp
qed

lemma ident_pattern_no_apostrophe: "ident_pattern tn \<Longrightarrow> apostrophe \<notin> set tn"
proof -
  assume "ident_pattern tn"
  then have "list_all ident_body tn" by (rule ident_pattern_body)
  moreover have "\<not> ident_body apostrophe"
    by (simp add: ident_body_def apostrophe_def is_upper_def is_lower_def is_digit_def code_def)
  ultimately show ?thesis by (auto simp: list_all_iff)
qed

lemma new_row_all_named:
  assumes names: "map cname (columns t) = hs"
      and dist: "distinct (map norm_name hs)"
      and len: "length vals = length hs"
  shows "new_row fp s t hs vals
           = map (\<lambda>(c, v). apply_affinity fp (ctype c) v) (zip (columns t) vals)"
proof (rule nth_equalityI)
  from names have lc: "length (columns t) = length hs" by (metis length_map)
  show "length (new_row fp s t hs vals)
          = length (map (\<lambda>(c, v). apply_affinity fp (ctype c) v) (zip (columns t) vals))"
    by (simp add: new_row_def lc len)
  fix i assume "i < length (new_row fp s t hs vals)"
  then have i: "i < length hs" by (simp add: new_row_def lc)
  from names i lc have cn: "cname (columns t ! i) = hs ! i" by (metis nth_map)
  have "map_of (zip (map norm_name hs) vals) (map norm_name hs ! i) = Some (vals ! i)"
    using dist len i by (intro map_of_zip_nth) simp_all
  with i have "map_of (zip (map norm_name hs) vals) (norm_name (hs ! i)) = Some (vals ! i)"
    by simp
  then show "new_row fp s t hs vals ! i
               = map (\<lambda>(c, v). apply_affinity fp (ctype c) v) (zip (columns t) vals) ! i"
    using i lc len cn by (simp add: new_row_def)
qed

lemma sql_insert_all_named:
  assumes tab: "tables s (norm_name tn) = Some t"
      and names: "map cname (columns t) = hs"
      and dist: "distinct (map norm_name hs)"
      and len: "length row = length hs"
  shows "sql_insert fp tn hs (map strip row) s
           = Inr (s\<lparr>tables := (tables s)(norm_name tn \<mapsto>
                      t\<lparr>rows := rows t @ [stored_row fp (columns t) row]\<rparr>)\<rparr>)"
proof -
  have "map (\<lambda>c. norm_name (cname c)) (columns t) = map norm_name (map cname (columns t))"
    by simp
  with names have "map (\<lambda>c. norm_name (cname c)) (columns t) = map norm_name hs"
    by simp
  then have known: "\<not> list_ex (\<lambda>c. norm_name c \<notin> set (map (\<lambda>c. norm_name (cname c)) (columns t))) hs"
    by (simp add: list_ex_iff)
  have "new_row fp s t hs (map strip row)
          = map (\<lambda>(c, v). apply_affinity fp (ctype c) v) (zip (columns t) (map strip row))"
    using names dist len by (intro new_row_all_named) simp_all
  also have "\<dots> = stored_row fp (columns t) row"
    by (simp add: stored_row_def zip_map2 case_prod_unfold comp_def)
  finally show ?thesis using tab known len by (simp add: sql_insert_def)
qed

lemma insert_rows_all_named:
  assumes "tables s (norm_name tn) = Some t"
      and "map cname (columns t) = hs"
      and "distinct (map norm_name hs)"
      and "list_all (\<lambda>row. length row = length hs) rws"
  shows "insert_rows fp tn hs chk rws s
           = (Inr (), s\<lparr>tables := (tables s)(norm_name tn \<mapsto>
                          t\<lparr>rows := rows t @ map (stored_row fp (columns t)) rws\<rparr>)\<rparr>)"
  using assms
proof (induction rws arbitrary: s t)
  case Nil
  then have "(tables s)(norm_name tn \<mapsto> t) = tables s" by (simp add: map_upd_triv)
  then show ?case by simp
next
  case (Cons row rws)
  let ?t' = "t\<lparr>rows := rows t @ [stored_row fp (columns t) row]\<rparr>"
  let ?s' = "s\<lparr>tables := (tables s)(norm_name tn \<mapsto> ?t')\<rparr>"
  from Cons.prems have len: "length row = length hs" and rest: "list_all (\<lambda>row. length row = length hs) rws"
    by simp_all
  have ins: "sql_insert fp tn hs (map strip row) s = Inr ?s'"
    using Cons.prems(1-3) len by (rule sql_insert_all_named)
  have step: "insert_rows fp tn hs chk (row # rws) s = insert_rows fp tn hs chk rws ?s'"
    using ins len by simp
  have ih: "insert_rows fp tn hs chk rws ?s'
          = (Inr (), ?s'\<lparr>tables := (tables ?s')(norm_name tn \<mapsto>
                ?t'\<lparr>rows := rows ?t' @ map (stored_row fp (columns ?t')) rws\<rparr>)\<rparr>)"
    using Cons.prems(2,3) rest by (intro Cons.IH) simp_all
  have st: "?s'\<lparr>tables := (tables ?s')(norm_name tn \<mapsto>
                ?t'\<lparr>rows := rows ?t' @ map (stored_row fp (columns ?t')) rws\<rparr>)\<rparr>
            = s\<lparr>tables := (tables s)(norm_name tn \<mapsto>
                t\<lparr>rows := rows t @ map (stored_row fp (columns t)) (row # rws)\<rparr>)\<rparr>"
    by simp
  show ?case unfolding step ih st ..
qed


lemma sanitize_ident: "ident_pattern (strip n) \<Longrightarrow> sanitize_identifier n = Inr (strip n)"
  using sanitize_identifier_cases [of n] by simp




lemma create_table_connected:
  "sql_create_table_if_not_exists n c s = Inr s' \<Longrightarrow> connected s' = connected s \<and> saved s' = saved s"
  by (auto simp: sql_create_table_if_not_exists_def split: if_splits)

lemma sql_insert_connected:
  "sql_insert fp n c v s = Inr s' \<Longrightarrow> connected s' = connected s \<and> saved s' = saved s"
  by (auto simp: sql_insert_def split: option.splits if_splits)

lemma insert_rows_connected:
  "insert_rows fp tn hs chk rws s = (r, s') \<Longrightarrow> connected s' = connected s \<and> saved s' = saved s"
proof (induction rws arbitrary: s)
  case Nil
  then show ?case by simp
next
  case (Cons row rws)
  show ?case
  proof (cases "chk \<and> length row \<noteq> length hs")
    case True
    with Cons.prems show ?thesis by auto
  next
    case False
    show ?thesis
    proof (cases "sql_insert fp tn hs (map strip row) s")
      case (Inl e)
      with False Cons.prems show ?thesis by auto
    next
      case (Inr s1)
      with False Cons.prems have "insert_rows fp tn hs chk rws s1 = (r, s')" by auto
      then have "connected s' = connected s1 \<and> saved s' = saved s1" by (rule Cons.IH)
      with sql_insert_connected [OF Inr] show ?thesis by simp
    qed
  qed
qed

lemma create_index_fields:
  "create_index tn idx s = (r, s') \<Longrightarrow>
     connected s' = connected s \<and> saved s' = saved s \<and> tables s' = tables s
     \<and> error_log s' = error_log s"
  by (auto simp: create_index_def sql_create_index_if_not_exists_def
      split: option.splits if_splits sum.splits)

lemma create_index_none: "create_index tn None s = (Inr (), s)"
  by (simp add: create_index_def)

lemma import_block_connected:
  assumes "import_block fp tn hs cols sample remaining idx s = (r, s')"
  shows "connected s' = connected s \<and> saved s' = saved s"
proof (cases "sql_create_table_if_not_exists tn cols s")
  case (Inl e)
  with assms show ?thesis by (simp add: import_block_def)
next
  case (Inr s1)
  note c1 = create_table_connected [OF Inr]
  obtain r2 s2 where i2: "insert_rows fp tn hs False sample s1 = (r2, s2)" by force
  note c2 = insert_rows_connected [OF i2]
  show ?thesis
  proof (cases r2)
    case (Inl e)
    with assms Inr i2 c1 c2 show ?thesis by (simp add: import_block_def)
  next
    case r2: (Inr u)
    obtain r3 s3 where i3: "insert_rows fp tn hs True remaining s2 = (r3, s3)" by force
    note c3 = insert_rows_connected [OF i3]
    show ?thesis
    proof (cases r3)
      case (Inl e)
      with assms Inr i2 r2 i3 c1 c2 c3 show ?thesis by (simp add: import_block_def)
    next
      case r3: (Inr u')
      with assms Inr i2 r2 i3 have "create_index tn idx s3 = (r, s')"
        by (simp add: import_block_def)
      from create_index_fields [OF this] c1 c2 c3 show ?thesis by simp
    qed
  qed
qed

lemma import_data_success_fields:
  assumes "import_data fp hash f table_name am idx s = (Inr x, s')"
  shows "connected s' \<and> saved s' = None"
proof -
  obtain s1 where c: "connect s = (Inr (), s1)" using connect_prod by blast
  then have cs1: "connected s1" using connect_connected [of s] by simp
  from assms c obtain tn hs cols sample remaining u s2 where
    t: "import_transaction fp tn hs cols sample remaining idx s1 = (Inr u, s')"
    by (auto simp: import_data_def Let_def split: sum.splits if_splits list.splits prod.splits)
  then obtain s3 where b: "import_block fp tn hs cols sample remaining idx s1 = (Inr u, s3)"
    and s': "s' = commit s3"
    by (auto simp: import_transaction_def split: prod.splits sum.splits)
  from import_block_connected [OF b] cs1 s' show ?thesis by (simp add: commit_def)
qed

lemma log_event_failure_rollback:
  assumes "connected s"
      and "sql_insert fp ''audit_log'' [''event_type'', ''details''] [ev, d] s = Inl e"
  shows "log_event fp ev d s = log_error e (rollback s)"
  using assms by (simp add: log_event_def)

lemma rollback_none: "saved s = None \<Longrightarrow> rollback s = s"
  by (simp add: rollback_def)

lemma export_data_connected:
  assumes "export_data fp tn s = (Inr w, s')"
  shows "connected s'"
proof -
  obtain s1 where c: "connect s = (Inr (), s1)" using connect_prod by blast
  then have "connected s1" using connect_connected [of s] by simp
  moreover from assms c have "s' = s1"
    by (auto simp: export_data_def split: sum.splits prod.splits)
  ultimately show ?thesis by simp
qed

text \<open>
  Claim C10. When an import has completed and the insert of its audit record fails, the
  import still returns success: the exception goes to the error log, and the tables are
  those of the committed import. When an export has written its rows and the insert of
  its audit record fails, the export still returns the rows: the insert's block is left
  by its rollback, which touches no committed data, and the exception goes to the error
  log.
\<close>

theorem audit_failure_contained:
  "(fst (import_data fp hash f table_name am idx s) = Inr tn
      \<and> sql_insert fp ''audit_log'' [''event_type'', ''details'']
            [''IMPORT_CSV'', import_details tn f] (snd (import_data fp hash f table_name am idx s))
          = Inl e
    \<longrightarrow> import_csv fp hash f table_name am idx s
            = (Inr (), log_error e (snd (import_data fp hash f table_name am idx s)))
        \<and> tables (snd (import_csv fp hash f table_name am idx s))
            = tables (snd (import_data fp hash f table_name am idx s)))
   \<and> (fst (export_data fp table_name s) = Inr written
      \<and> sql_insert fp ''audit_log'' [''event_type'', ''details'']
            [''EXPORT_CSV'', export_details table_name filepath] (snd (export_data fp table_name s))
          = Inl e'
    \<longrightarrow> export_table_to_csv fp table_name filepath s
            = (Inr written, log_error e' (rollback (snd (export_data fp table_name s)))))"
proof (intro conjI impI)
  assume a: "fst (import_data fp hash f table_name am idx s) = Inr tn
      \<and> sql_insert fp ''audit_log'' [''event_type'', ''details'']
            [''IMPORT_CSV'', import_details tn f] (snd (import_data fp hash f table_name am idx s))
          = Inl e"
  obtain s1 where d: "import_data fp hash f table_name am idx s = (Inr tn, s1)"
    using a by (cases "import_data fp hash f table_name am idx s") simp
  from a d have ins: "sql_insert fp ''audit_log'' [''event_type'', ''details'']
            [''IMPORT_CSV'', import_details tn f] s1 = Inl e" by simp
  from import_data_success_fields [OF d] have c: "connected s1" and sv: "saved s1 = None"
    by simp_all
  from c ins have "log_event fp ''IMPORT_CSV'' (import_details tn f) s1 = log_error e (rollback s1)"
    by (rule log_event_failure_rollback)
  with sv have le: "log_event fp ''IMPORT_CSV'' (import_details tn f) s1 = log_error e s1"
    by (simp add: rollback_none)
  then show "import_csv fp hash f table_name am idx s
          = (Inr (), log_error e (snd (import_data fp hash f table_name am idx s)))"
    by (simp add: import_csv_def d)
  from le show "tables (snd (import_csv fp hash f table_name am idx s))
          = tables (snd (import_data fp hash f table_name am idx s))"
    by (simp add: import_csv_def d log_error_def)
next
  assume a: "fst (export_data fp table_name s) = Inr written
      \<and> sql_insert fp ''audit_log'' [''event_type'', ''details'']
            [''EXPORT_CSV'', export_details table_name filepath] (snd (export_data fp table_name s))
          = Inl e'"
  obtain s1 where d: "export_data fp table_name s = (Inr written, s1)"
    using a by (cases "export_data fp table_name s") simp
  from a d have ins: "sql_insert fp ''audit_log'' [''event_type'', ''details'']
            [''EXPORT_CSV'', export_details table_name filepath] s1 = Inl e'" by simp
  from export_data_connected [OF d] ins
  have "log_event fp ''EXPORT_CSV'' (export_details table_name filepath) s1
          = log_error e' (rollback s1)"
    by (rule log_event_failure_rollback)
  then show "export_table_to_csv fp table_name filepath s
          = (Inr written, log_error e' (rollback (snd (export_data fp table_name s))))"
    by (simp add: export_table_to_csv_def d)
qed

lemma commit_fields [simp]:
  "tables (commit s) = tables s" "connected (commit s) = connected s"
  "saved (commit s) = None" "error_log (commit s) = error_log s" "indexes (commit s) = indexes s"
  by (simp_all add: commit_def)

lemma create_table_fresh:
  assumes "cols \<noteq> []" and "\<not> startswith (norm_name tn) ''sqlite_''"
      and "tables s (norm_name tn) = None"
      and "norm_name tn \<notin> set (index_names s)"
      and "length cols \<le> SQLITE_MAX_COLUMN"
      and "distinct (map (\<lambda>c. norm_name (cname c)) cols)"
  shows "sql_create_table_if_not_exists tn cols s
           = Inr (s\<lparr>tables := (tables s)(norm_name tn \<mapsto>
                      \<lparr>tname = tn, columns = cols, rows = []\<rparr>)\<rparr>)"
  using assms by (simp add: sql_create_table_if_not_exists_def)

lemma infer_columns_nonempty: "hs \<noteq> [] \<Longrightarrow> infer_columns hs sample \<noteq> []"
  by (simp add: infer_columns_def enumerate_eq_zip)

lemma infer_columns_length: "length (infer_columns hs sample) = length hs"
  by (simp add: infer_columns_def)

lemma infer_columns_distinct:
  "distinct (map norm_name hs) \<Longrightarrow>
   distinct (map (\<lambda>c. norm_name (cname c)) (infer_columns hs sample))"
proof -
  assume d: "distinct (map norm_name hs)"
  have "map (\<lambda>c. norm_name (cname c)) (infer_columns hs sample)
          = map norm_name (map cname (infer_columns hs sample))" by simp
  also have "\<dots> = map norm_name hs" by (simp only: infer_columns_names)
  finally show ?thesis using d by simp
qed

lemma import_block_fresh:
  assumes hs: "hs \<noteq> []" and dist: "distinct (map norm_name hs)"
      and widths: "list_all (\<lambda>row. length row = length hs) data"
      and res: "\<not> startswith (norm_name tn) ''sqlite_''"
      and fresh: "tables s (norm_name tn) = None"
      and noidx: "norm_name tn \<notin> set (index_names s)"
      and few: "length hs \<le> SQLITE_MAX_COLUMN"
      and cols: "cols = infer_columns hs sample"
  shows "import_block fp tn hs cols (take n data) (drop n data) idx s
           = create_index tn idx (loaded fp tn cols data s)"
proof -
  let ?k = "norm_name tn"
  let ?t0 = "\<lparr>tname = tn, columns = cols, rows = []\<rparr> :: 'a table"
  let ?s0 = "s\<lparr>tables := (tables s)(?k \<mapsto> ?t0)\<rparr>"
  let ?t1 = "?t0\<lparr>rows := rows ?t0 @ map (stored_row fp (columns ?t0)) (take n data)\<rparr>"
  let ?s1 = "?s0\<lparr>tables := (tables ?s0)(?k \<mapsto> ?t1)\<rparr>"
  let ?t2 = "?t1\<lparr>rows := rows ?t1 @ map (stored_row fp (columns ?t1)) (drop n data)\<rparr>"
  let ?s2 = "?s1\<lparr>tables := (tables ?s1)(?k \<mapsto> ?t2)\<rparr>"
  have names: "map cname cols = hs" by (simp add: cols infer_columns_names)
  have w1: "list_all (\<lambda>row. length row = length hs) (take n data)"
    using widths by (auto simp: list_all_iff dest: in_set_takeD)
  have w2: "list_all (\<lambda>row. length row = length hs) (drop n data)"
    using widths by (auto simp: list_all_iff dest: in_set_dropD)
  have c: "sql_create_table_if_not_exists tn cols s = Inr ?s0"
    using hs res fresh dist noidx few
    by (intro create_table_fresh)
       (simp_all add: cols infer_columns_nonempty infer_columns_distinct infer_columns_length)
  have i1: "insert_rows fp tn hs False (take n data) ?s0 = (Inr (), ?s1)"
    using names dist w1 by (intro insert_rows_all_named) simp_all
  have i2: "insert_rows fp tn hs True (drop n data) ?s1 = (Inr (), ?s2)"
    using names dist w2 by (intro insert_rows_all_named) simp_all
  have "map (stored_row fp cols) (take n data) @ map (stored_row fp cols) (drop n data)
          = map (stored_row fp cols) data"
    by (simp flip: map_append)
  then have fin: "?s2 = loaded fp tn cols data s" by (simp add: loaded_def)
  have "import_block fp tn hs cols (take n data) (drop n data) idx s = create_index tn idx ?s2"
    by (simp only: import_block_def c i1 i2 sum.case prod.case)
  then show ?thesis by (simp only: fin)
qed


lemma import_data_fresh:
  assumes wf: "wellformed_csv f" and tn: "ident_pattern tn"
      and res: "\<not> startswith (norm_name tn) ''sqlite_''"
      and na: "norm_name tn \<noteq> ''audit_log''"
      and fresh: "tables s (norm_name tn) = None"
      and noidx: "norm_name tn \<notin> set (index_names s)"
      and f: "content f = hdr # data"
  shows "import_data fp hash f tn am idx s
           = (case create_index tn idx
                     (loaded fp tn (infer_columns hdr (take 20 data)) data (snd (connect s))) of
                (Inl e, s') \<Rightarrow> (Inl e, rollback s')
              | (Inr u, s') \<Rightarrow> (Inr tn, commit s'))"
proof -
  from wf f have hdr: "hdr \<noteq> []" and ids: "list_all ident_pattern hdr"
    and few: "length hdr \<le> SQLITE_MAX_COLUMN"
    and dist: "distinct (map norm_name hdr)"
    and widths: "list_all (\<lambda>row. length row = length hdr) data"
    and sz: "\<not> file_size f > MAX_CSV_SIZE"
    and ty: "\<not> (mime_guess f \<noteq> Some ''text/csv'' \<and> \<not> endswith (lower (path f)) ''.csv'')"
    by (auto simp: wellformed_csv_def)
  have san: "sanitize_identifier tn = Inr tn"
    using sanitize_ident [of tn] tn by (simp add: ident_pattern_strip)
  have nh: "normalize_headers hash hdr = hdr" using ids by (rule normalize_headers_ident)
  have nomis: "\<not> list_ex (\<lambda>row. length row \<noteq> length hdr) (take 20 data)"
    using widths by (auto simp: list_all_iff list_ex_iff dest: in_set_takeD)
  obtain s1 where c: "connect s = (Inr (), s1)" using connect_prod by blast
  then have s1: "s1 = snd (connect s)" by simp
  have fresh1: "tables s1 (norm_name tn) = None"
    unfolding s1 using connect_tables_other [OF na, of s] fresh by simp
  then have nex: "\<not> table_exists tn s1" by (simp add: table_exists_def)
  have noidx1: "norm_name tn \<notin> set (index_names s1)"
    unfolding s1 using noidx by (simp add: connect_indexes)
  have blk: "import_block fp tn hdr (infer_columns hdr (take 20 data)) (take 20 data) (drop 20 data) idx s1
               = create_index tn idx (loaded fp tn (infer_columns hdr (take 20 data)) data s1)"
    using hdr dist widths res fresh1 noidx1 few by (intro import_block_fresh) simp_all
  show ?thesis
    unfolding s1 [symmetric]
    by (simp add: import_data_def san sz ty f Let_def nh nomis c nex import_transaction_def blk
        split: prod.splits sum.splits)
qed




















lemma import_block_short_row:
  assumes hs: "hs \<noteq> []" and dist: "distinct (map norm_name hs)"
      and widths: "list_all (\<lambda>row. length row = length hs) sample"
      and bad: "length bad \<noteq> length hs"
      and res: "\<not> startswith (norm_name tn) ''sqlite_''"
      and fresh: "tables s (norm_name tn) = None"
      and noidx: "norm_name tn \<notin> set (index_names s)"
      and few: "length hs \<le> SQLITE_MAX_COLUMN"
      and cols: "cols = infer_columns hs sample"
  shows "import_block fp tn hs cols sample (bad # rest) idx s
           = (Inl RowLengthMismatchImport, loaded fp tn cols sample s)"
proof -
  let ?k = "norm_name tn"
  let ?t0 = "\<lparr>tname = tn, columns = cols, rows = []\<rparr> :: 'a table"
  let ?s0 = "s\<lparr>tables := (tables s)(?k \<mapsto> ?t0)\<rparr>"
  let ?t1 = "?t0\<lparr>rows := rows ?t0 @ map (stored_row fp (columns ?t0)) sample\<rparr>"
  let ?s1 = "?s0\<lparr>tables := (tables ?s0)(?k \<mapsto> ?t1)\<rparr>"
  have names: "map cname cols = hs" by (simp add: cols infer_columns_names)
  have c: "sql_create_table_if_not_exists tn cols s = Inr ?s0"
    using hs res fresh dist noidx few
    by (intro create_table_fresh)
       (simp_all add: cols infer_columns_nonempty infer_columns_distinct infer_columns_length)
  have i1: "insert_rows fp tn hs False sample ?s0 = (Inr (), ?s1)"
    using names dist widths by (intro insert_rows_all_named) simp_all
  have i2: "insert_rows fp tn hs True (bad # rest) ?s1 = (Inl RowLengthMismatchImport, ?s1)"
    using bad by simp
  have fin: "?s1 = loaded fp tn cols sample s" by (simp add: loaded_def)
  have "import_block fp tn hs cols sample (bad # rest) idx s = (Inl RowLengthMismatchImport, ?s1)"
    by (simp only: import_block_def c i1 i2 sum.case prod.case)
  then show ?thesis by (simp only: fin)
qed

lemma strip_examples:
  "strip ''t'' = ''t''" "strip ''1'' = ''1''" "strip ''2'' = ''2''" "strip ''007'' = ''007''"
  "strip ''Alice'' = ''Alice''" "strip ''Bob'' = ''Bob''" "strip ''30'' = ''30''" "strip [] = []"
  by code_simp+

lemma ident_examples:
  "ident_pattern ''t''" "ident_pattern ''people''" "ident_pattern ''a''" "ident_pattern ''b''"
  "ident_pattern ''n''" "ident_pattern ''name''" "ident_pattern ''age''"
  by code_simp+

lemma name_examples:
  "norm_name ''t'' = ''t''" "norm_name ''people'' = ''people''"
  "\<not> startswith ''t'' ''sqlite_''" "\<not> startswith ''people'' ''sqlite_''"
  "norm_name ''a'' = ''a''" "norm_name ''b'' = ''b''"
  by code_simp+

lemma connect_empty_db:
  "tables (snd (connect (empty_db :: 'r state))) ''t'' = None"
  "tables (snd (connect (empty_db :: 'r state))) ''people'' = None"
  "saved (snd (connect (empty_db :: 'r state))) = None"
proof -
  have e: "saved (empty_db :: 'r state) = None" "tables (empty_db :: 'r state) = Map.empty"
    by (simp_all add: empty_db_def)
  show "tables (snd (connect (empty_db :: 'r state))) ''t'' = None"
    by (simp add: connect_tables_other e)
  show "tables (snd (connect (empty_db :: 'r state))) ''people'' = None"
    by (simp add: connect_tables_other e)
  show "saved (snd (connect (empty_db :: 'r state))) = None"
    using e(1) by (rule connect_saved)
qed

lemma short_row_columns:
  "infer_columns [''a'', ''b''] (replicate 20 [''1'', ''2''])
     = [\<lparr>cname = ''a'', ctype = INTEGER, cdefault = DNull\<rparr>,
        \<lparr>cname = ''b'', ctype = INTEGER, cdefault = DNull\<rparr>]"
  by code_simp

lemma int_literal_examples:
  "sqlite_int_literal ''1'' = Some 1" "sqlite_int_literal ''2'' = Some 2"
  "sqlite_int_literal ''007'' = Some 7"
  by code_simp+

lemma short_row_stored:
  "stored_row fp [\<lparr>cname = ''a'', ctype = INTEGER, cdefault = DNull\<rparr>,
                  \<lparr>cname = ''b'', ctype = INTEGER, cdefault = DNull\<rparr>] [''1'', ''2'']
     = [VInt 1, VInt 2]"
  by (simp add: stored_row_def apply_affinity_def strip_examples int_literal_examples)

text \<open>
  Claim C1. The connection is opened with \<^verbatim>\<open>isolation_level=None\<close>, so no transaction
  is open inside the \<^verbatim>\<open>with self.conn:\<close> block and the rollback at its exit undoes
  nothing. For a file whose 21st data row lacks a field, imported into a database where
  the table \<^verbatim>\<open>t\<close> does not exist, the import raises the row-length error of the
  streaming loop and the table \<^verbatim>\<open>t\<close> is there afterwards, with the 20 rows of the file
  that came before the bad one.
\<close>

theorem import_failure_keeps_rows:
  "fst (import_csv (fp :: 'r float_ops) hash short_row_file ''t'' False None empty_db)
     = Inl RowLengthMismatchImport
   \<and> map_option rows (tables (snd (import_csv fp hash short_row_file ''t'' False None empty_db)) ''t'')
       = Some (replicate 20 [VInt 1, VInt 2])
   \<and> tables (empty_db :: 'r state) ''t'' = None"
proof -
  let ?hs = "[''a'', ''b'']"
  let ?sample = "replicate 20 [''1'', ''2'']"
  let ?cols = "infer_columns ?hs ?sample"
  let ?s1 = "snd (connect (empty_db :: 'r state))"
  obtain s1 where c: "connect (empty_db :: 'r state) = (Inr (), s1)" using connect_prod by blast
  then have s1: "s1 = ?s1" by simp
  have san: "sanitize_identifier ''t'' = Inr ''t''"
    using sanitize_ident [of "''t''"] by (simp add: strip_examples ident_examples)
  have nh: "normalize_headers hash ?hs = ?hs"
    by (rule normalize_headers_ident) (simp add: ident_examples)
  have fresh1: "tables s1 (norm_name ''t'') = None"
    unfolding s1 by (simp add: name_examples connect_empty_db)
  then have nex: "\<not> table_exists ''t'' s1" by (simp add: table_exists_def)
  have noidx1: "norm_name ''t'' \<notin> set (index_names s1)"
    unfolding s1 by (simp add: connect_indexes) (simp add: index_names_def empty_db_def)
  have blk: "import_block fp ''t'' ?hs ?cols ?sample ([''3''] # []) None s1
               = (Inl RowLengthMismatchImport, loaded fp ''t'' ?cols ?sample s1)"
    using fresh1 noidx1
    by (intro import_block_short_row)
       (simp_all add: name_examples list_all_iff SQLITE_MAX_COLUMN_def)
  have sv: "saved (loaded fp ''t'' ?cols ?sample s1) = None"
    unfolding s1 by (simp add: loaded_def connect_empty_db)
  have d: "import_data fp hash short_row_file ''t'' False None empty_db
             = (Inl RowLengthMismatchImport, loaded fp ''t'' ?cols ?sample s1)"
    by (simp add: import_data_def san short_row_file_def MAX_CSV_SIZE_def Let_def nh c nex
        import_transaction_def blk rollback_def sv list_ex_iff)
  have "tables (loaded fp ''t'' ?cols ?sample s1) ''t''
          = Some \<lparr>tname = ''t'', columns = ?cols, rows = map (stored_row fp ?cols) ?sample\<rparr>"
    by (simp add: loaded_def name_examples)
  moreover have "map (stored_row fp ?cols) ?sample = replicate 20 [VInt 1, VInt 2]"
    by (simp only: short_row_columns map_replicate short_row_stored)
  ultimately show ?thesis
    by (simp add: import_csv_def d) (simp add: empty_db_def)
qed

section \<open>The properties at the example inputs\<close>

lemma header_examples:
  "norm_name ''name'' = ''name''" "norm_name ''age'' = ''age''" "norm_name ''n'' = ''n''"
  by code_simp+

lemma people_wellformed: "wellformed_csv people_file"
  by (simp add: wellformed_csv_def people_file_def MAX_CSV_SIZE_def SQLITE_MAX_COLUMN_def
      ident_examples header_examples)



lemma people_columns:
  "infer_columns [''name'', ''age''] [[''Alice'', ''30''], [''Bob'', '''']]
     = [\<lparr>cname = ''name'', ctype = TEXT, cdefault = DNull\<rparr>,
        \<lparr>cname = ''age'', ctype = TEXT, cdefault = DNull\<rparr>]"
  by code_simp


lemma str_int_examples: "str_int 7 = ''7''" "str_int 1 = ''1''"
  by code_simp+



lemma dropped_audit_db_facts:
  "connected (dropped_audit_db :: 'r state)"
  "saved (dropped_audit_db :: 'r state) = None"
  "tables (dropped_audit_db :: 'r state) ''audit_log'' = None"
  "tables (dropped_audit_db :: 'r state) ''people'' = None"
  "tables (dropped_audit_db :: 'r state) ''t'' = Some one_table"
  "error_log (dropped_audit_db :: 'r state) = []"
  "index_names (dropped_audit_db :: 'r state) = []"
  by (simp_all add: dropped_audit_db_def index_names_def)


lemma connect_dropped: "connect (dropped_audit_db :: 'r state) = (Inr (), dropped_audit_db)"
  by (simp add: connect_def dropped_audit_db_facts)

lemma import_people_dropped:
  "import_data fp hash people_file ''people'' False None dropped_audit_db
     = (Inr ''people'',
        commit (loaded fp ''people''
                  [\<lparr>cname = ''name'', ctype = TEXT, cdefault = DNull\<rparr>,
                   \<lparr>cname = ''age'', ctype = TEXT, cdefault = DNull\<rparr>]
                  [[''Alice'', ''30''], [''Bob'', '''']] dropped_audit_db))"
proof -
  have f: "content people_file = [''name'', ''age''] # [[''Alice'', ''30''], [''Bob'', '''']]"
    by (simp add: people_file_def)
  have "import_data fp hash people_file ''people'' False None dropped_audit_db
     = (case create_index ''people'' None
               (loaded fp ''people''
                  (infer_columns [''name'', ''age''] (take 20 [[''Alice'', ''30''], [''Bob'', '''']]))
                  [[''Alice'', ''30''], [''Bob'', '''']] (snd (connect dropped_audit_db))) of
          (Inl e, s') \<Rightarrow> (Inl e, rollback s')
        | (Inr u, s') \<Rightarrow> (Inr ''people'', commit s'))"
    by (rule import_data_fresh [OF people_wellformed _ _ _ _ _ f])
       (simp_all add: ident_examples name_examples dropped_audit_db_facts)
  then show ?thesis by (simp add: create_index_none connect_dropped people_columns)
qed

lemma audit_insert_fails:
  "tables s ''audit_log'' = None \<Longrightarrow>
   sql_insert fp ''audit_log'' [''event_type'', ''details''] [ev, d] s = Inl StorageError"
  by (simp add: sql_insert_def norm_audit)

lemma export_data_dropped:
  "export_data fp ''t'' dropped_audit_db = (Inr [[''a''], [''1'']], dropped_audit_db)"
  using ident_pattern_no_apostrophe [of "''t''"]
  by (simp add: export_data_def connect_dropped sql_select_all_def ident_examples name_examples
      dropped_audit_db_facts one_table_def render_def str_int_examples)





text \<open>
  Claim C10 at a database whose audit table was dropped after the connection was made:
  the import of the scenario's file succeeds although the audit insert fails, the error
  is in the log and the tables are those the import committed; the export of \<^verbatim>\<open>t\<close>
  likewise returns its rows and logs the error.
\<close>

theorem audit_failure_contained_witness:
  "\<forall>(fp :: 'r float_ops) hash.
     fst (import_data fp hash people_file ''people'' False None dropped_audit_db) = Inr ''people''
     \<and> sql_insert fp ''audit_log'' [''event_type'', ''details'']
           [''IMPORT_CSV'', import_details ''people'' people_file]
           (snd (import_data fp hash people_file ''people'' False None dropped_audit_db))
         = Inl StorageError
     \<and> fst (import_csv fp hash people_file ''people'' False None dropped_audit_db) = Inr ()
     \<and> error_log (snd (import_csv fp hash people_file ''people'' False None dropped_audit_db))
         = [StorageError]
     \<and> tables (snd (import_csv fp hash people_file ''people'' False None dropped_audit_db))
         = tables (snd (import_data fp hash people_file ''people'' False None dropped_audit_db))
     \<and> fst (export_data fp ''t'' dropped_audit_db) = Inr [[''a''], [''1'']]
     \<and> sql_insert fp ''audit_log'' [''event_type'', ''details'']
           [''EXPORT_CSV'', export_details ''t'' ''out.csv'']
           (snd (export_data fp ''t'' dropped_audit_db))
         = Inl StorageError
     \<and> export_table_to_csv fp ''t'' ''out.csv'' dropped_audit_db
         = (Inr [[''a''], [''1'']], dropped_audit_db\<lparr>error_log := [StorageError]\<rparr>)"
proof (intro allI)
  fix fp :: "'r float_ops" and hash :: "string \<Rightarrow> int"
  let ?D = "import_data fp hash people_file ''people'' False None dropped_audit_db"
  let ?E = "export_data fp ''t'' (dropped_audit_db :: 'r state)"
  have d1: "fst ?D = Inr ''people''" by (simp add: import_people_dropped)
  have "tables (snd ?D) ''audit_log'' = None"
    by (simp add: import_people_dropped loaded_def name_examples dropped_audit_db_facts)
  then have d2: "sql_insert fp ''audit_log'' [''event_type'', ''details'']
           [''IMPORT_CSV'', import_details ''people'' people_file] (snd ?D) = Inl StorageError"
    by (rule audit_insert_fails)
  have d3: "error_log (snd ?D) = []"
    by (simp add: import_people_dropped loaded_def dropped_audit_db_facts)
  have e1: "fst ?E = Inr [[''a''], [''1'']]" by (simp add: export_data_dropped)
  have e2: "sql_insert fp ''audit_log'' [''event_type'', ''details'']
           [''EXPORT_CSV'', export_details ''t'' ''out.csv''] (snd ?E) = Inl StorageError"
    by (rule audit_insert_fails) (simp add: export_data_dropped dropped_audit_db_facts)
  from audit_failure_contained
         [of fp hash people_file "''people''" False None dropped_audit_db "''people''"
             StorageError "[[''a''], [''1'']]" "''out.csv''" StorageError]
       d1 d2
  have i: "import_csv fp hash people_file ''people'' False None dropped_audit_db
             = (Inr (), log_error StorageError (snd ?D))"
    by blast
  from audit_failure_contained
         [of fp hash people_file "''t''" False None dropped_audit_db "''people''"
             StorageError "[[''a''], [''1'']]" "''out.csv''" StorageError]
       e1 e2
  have x: "export_table_to_csv fp ''t'' ''out.csv'' dropped_audit_db
             = (Inr [[''a''], [''1'']], log_error StorageError (rollback (snd ?E)))"
    by blast
  have c3: "fst (import_csv fp hash people_file ''people'' False None dropped_audit_db) = Inr ()"
    by (simp add: i)
  have c4: "error_log (snd (import_csv fp hash people_file ''people'' False None dropped_audit_db))
         = [StorageError]" by (simp add: i d3 log_error_def)
  have c5: "tables (snd (import_csv fp hash people_file ''people'' False None dropped_audit_db))
         = tables (snd ?D)" by (simp add: i log_error_def)
  have c9: "export_table_to_csv fp ''t'' ''out.csv'' dropped_audit_db
         = (Inr [[''a''], [''1'']], dropped_audit_db\<lparr>error_log := [StorageError]\<rparr>)"
    by (simp add: x export_data_dropped dropped_audit_db_facts rollback_none log_error_def)
  from d1 d2 c3 c4 c5 e1 e2 c9
  show "fst ?D = Inr ''people''
     \<and> sql_insert fp ''audit_log'' [''event_type'', ''details'']
           [''IMPORT_CSV'', import_details ''people'' people_file] (snd ?D) = Inl StorageError
     \<and> fst (import_csv fp hash people_file ''people'' False None dropped_audit_db) = Inr ()
     \<and> error_log (snd (import_csv fp hash people_file ''people'' False None dropped_audit_db))
         = [StorageError]
     \<and> tables (snd (import_csv fp hash people_file ''people'' False None dropped_audit_db))
         = tables (snd ?D)
     \<and> fst ?E = Inr [[''a''], [''1'']]
     \<and> sql_insert fp ''audit_log'' [''event_type'', ''details'']
           [''EXPORT_CSV'', export_details ''t'' ''out.csv''] (snd ?E) = Inl StorageError
     \<and> export_table_to_csv fp ''t'' ''out.csv'' dropped_audit_db
         = (Inr [[''a''], [''1'']], dropped_audit_db\<lparr>error_log := [StorageError]\<rparr>)"
    by blast
qed

end
